theory Spec2Isabelle
  imports Complex_Main "HOL-Library.AList" "HOL-Library.Log_Nat"
begin

section \<open>Values of the program\<close>

text \<open>
  An aware datetime normalised to UTC is the number of microseconds since the epoch, a
  timedelta is a number of microseconds; both are unbounded integers here (the range
  checks of years 1 to 9999 belong to the library calls that build the values).

  A Python float is a finite binary64 value, given by the rational it denotes, an
  infinity or a NaN. The sign of zero is not kept: nothing in the program tells the two
  zeros apart (\<^verbatim>\<open>abs\<close>, \<^verbatim>\<open>>= 0\<close> and \<^verbatim>\<open>int\<close> agree on them).
\<close>

datatype pyfloat = Finite rat | PosInf | NegInf | NaN

datatype pyerr = KeyError | TypeError | ValueError | AttributeError | OverflowError | OtherError

record TimelinePoint =
  time_utc :: int
  lat :: pyfloat
  lon :: pyfloat

section \<open>Nearest sample\<close>

text \<open>
  \<^verbatim>\<open>bisect.bisect_left(a, x)\<close> of the standard library, with \<^verbatim>\<open>lo = 0\<close> and
  \<^verbatim>\<open>hi = len(a)\<close>:
  \<^verbatim>\<open>
  while lo < hi:
      mid = (lo + hi) // 2
      if a[mid] < x: lo = mid + 1
      else: hi = mid
  return lo
  \<close>
  Every read \<open>a ! mid\<close> has \<open>mid < hi \<le> length a\<close>.
\<close>

function bisect_left_loop :: "int list \<Rightarrow> int \<Rightarrow> nat \<Rightarrow> nat \<Rightarrow> nat" where
  "bisect_left_loop a x lo hi =
     (if lo < hi then
        (let mid = (lo + hi) div 2
         in if a ! mid < x then bisect_left_loop a x (mid + 1) hi
            else bisect_left_loop a x lo mid)
      else lo)"
  by pat_completeness auto
termination
  by (relation "measure (\<lambda>(a, x, lo, hi). hi - lo)") auto

declare bisect_left_loop.simps [simp del]

definition bisect_left :: "int list \<Rightarrow> int \<Rightarrow> nat" where
  "bisect_left a x = bisect_left_loop a x 0 (length a)"

text \<open>
  \<^verbatim>\<open>min(candidates, key=...)\<close> on a non-empty list: the first element whose key is
  minimal (a later element replaces the current one only when its key is strictly less).
\<close>

fun py_min_from :: "('a \<Rightarrow> int) \<Rightarrow> 'a \<Rightarrow> 'a list \<Rightarrow> 'a" where
  "py_min_from key best [] = best"
| "py_min_from key best (y # ys) =
     py_min_from key (if key y < key best then y else best) ys"

definition find_nearest_timeline_point :: "TimelinePoint list \<Rightarrow> int \<Rightarrow> TimelinePoint option" where
  "find_nearest_timeline_point points ts =
     (let keys = map time_utc points;
          idx = bisect_left keys ts;
          candidates = (if idx < length points then [points ! idx] else [])
                     @ (if idx > 0 then [points ! (idx - 1)] else [])
      in case candidates of
           [] \<Rightarrow> None
         | c # cs \<Rightarrow> Some (py_min_from (\<lambda>p. \<bar>time_utc p - ts\<bar>) c cs))"

section \<open>Binary64 arithmetic\<close>

text \<open>
  Every float operation of the program returns the exact result rounded to the nearest
  binary64 value, ties to even. \<open>round64\<close> is that rounding on the rationals: the
  result is a multiple of \<open>2 ^ e\<close>, where \<open>e\<close> is the exponent of the leading bit less
  52, and never below \<open>- 1074\<close> (the subnormal range). No operation of the program
  reaches the overflow threshold: its operands are a coordinate, a fraction below one
  scaled by 60 and by 100, and the seconds of a timedelta.
\<close>

definition rne :: "rat \<Rightarrow> int" where
  "rne q = (let f = \<lfloor>q\<rfloor>; r = q - of_int f
            in if r < 1 / 2 then f
               else if 1 / 2 < r then f + 1
               else if even f then f else f + 1)"

definition ilog2 :: "rat \<Rightarrow> int" where
  "ilog2 q = (let k = bitlen (fst (quotient_of q)) - bitlen (snd (quotient_of q))
              in if 2 powi k \<le> q then k else k - 1)"

definition round64 :: "rat \<Rightarrow> rat" where
  "round64 q = (if q = 0 then 0
                else let e = max (ilog2 \<bar>q\<bar> - 52) (- 1074)
                     in of_int (rne (q / 2 powi e)) * 2 powi e)"

section \<open>Offset formatting\<close>

text \<open>
  \<^verbatim>\<open>int(x)\<close> on a finite float truncates towards zero.
  \<^verbatim>\<open>td.total_seconds()\<close> is the true division of the microseconds by \<open>10 ^ 6\<close>,
  rounded once.
\<close>

definition int_of_float :: "rat \<Rightarrow> int" where
  "int_of_float x = (if 0 \<le> x then \<lfloor>x\<rfloor> else \<lceil>x\<rceil>)"

definition total_seconds :: "int \<Rightarrow> rat" where
  "total_seconds td = round64 (of_int td / 1000000)"

definition digit_char :: "nat \<Rightarrow> char" where
  "digit_char d = ''0123456789'' ! d"

fun dec_digits :: "nat \<Rightarrow> string" where
  "dec_digits n = (if n < 10 then [digit_char n]
                   else dec_digits (n div 10) @ [digit_char (n mod 10)])"

declare dec_digits.simps [simp del]

text \<open>The format \<^verbatim>\<open>{n:02d}\<close> of a non-negative integer: at least two digits.\<close>

definition fmt_02d :: "nat \<Rightarrow> string" where
  "fmt_02d n = (let s = dec_digits n in replicate (2 - length s) (CHR ''0'') @ s)"

definition format_tz_offset :: "int \<Rightarrow> string" where
  "format_tz_offset td =
     (let total_minutes = int_of_float (round64 (total_seconds td / 60));
          sign = (if total_minutes \<ge> 0 then ''+'' else ''-'');
          total_minutes = \<bar>total_minutes\<bar>;
          hh = total_minutes div 60;
          mm = total_minutes mod 60
      in sign @ fmt_02d (nat hh) @ '':'' @ fmt_02d (nat mm))"

section \<open>Building the timeline index\<close>

subsection \<open>Segment records as the reader yields them\<close>

text \<open>
  The reader yields one Python value per element of \<^verbatim>\<open>semanticSegments\<close>: a dict (an
  association list with distinct keys, in insertion order), a list, a string, a number, a
  boolean or \<^verbatim>\<open>None\<close>. A character of a string is its code point, below 256. The
  operations below are the ones the build applies to such a value, with the exception
  each raises on a value of another type.
\<close>

datatype json = JNull | JBool bool | JNum rat | JStr string | JArr "json list"
  | JObj "(string \<times> json) list"

definition starts_with :: "string \<Rightarrow> string \<Rightarrow> bool" where
  "starts_with key s = (take (length key) s = key)"

fun str_contains :: "string \<Rightarrow> string \<Rightarrow> bool" where
  "str_contains key [] = (key = [])"
| "str_contains key (c # cs) = (starts_with key (c # cs) \<or> str_contains key cs)"

text \<open>\<^verbatim>\<open>key in v\<close>: a key of a dict, an element of a list, a substring of a string.\<close>

definition py_in :: "string \<Rightarrow> json \<Rightarrow> pyerr + bool" where
  "py_in key v =
     (case v of
        JObj kvs \<Rightarrow> Inr (key \<in> set (map fst kvs))
      | JArr xs \<Rightarrow> Inr (JStr key \<in> set xs)
      | JStr s \<Rightarrow> Inr (str_contains key s)
      | _ \<Rightarrow> Inl TypeError)"

text \<open>\<^verbatim>\<open>v.get(key, dflt)\<close>: only a dict has the method.\<close>

definition py_get :: "json \<Rightarrow> string \<Rightarrow> json \<Rightarrow> pyerr + json" where
  "py_get v key dflt =
     (case v of
        JObj kvs \<Rightarrow> Inr (case map_of kvs key of Some x \<Rightarrow> x | None \<Rightarrow> dflt)
      | _ \<Rightarrow> Inl AttributeError)"

text \<open>\<^verbatim>\<open>for entry in v\<close>: the elements of a list, the keys of a dict, the characters of a string.\<close>

definition py_iter :: "json \<Rightarrow> pyerr + json list" where
  "py_iter v =
     (case v of
        JArr xs \<Rightarrow> Inr xs
      | JObj kvs \<Rightarrow> Inr (map (\<lambda>kv. JStr (fst kv)) kvs)
      | JStr s \<Rightarrow> Inr (map (\<lambda>c. JStr [c]) s)
      | _ \<Rightarrow> Inl TypeError)"

text \<open>\<^verbatim>\<open>v[key]\<close> with a string key.\<close>

definition py_item :: "json \<Rightarrow> string \<Rightarrow> pyerr + json" where
  "py_item v key =
     (case v of
        JObj kvs \<Rightarrow> (case map_of kvs key of Some x \<Rightarrow> Inr x | None \<Rightarrow> Inl KeyError)
      | _ \<Rightarrow> Inl TypeError)"

subsection \<open>Strings\<close>

text \<open>The characters \<^verbatim>\<open>str.strip()\<close> removes, among the code points below 256.\<close>

definition is_space :: "char \<Rightarrow> bool" where
  "is_space c = (of_char c \<in> {9, 10, 11, 12, 13, 28, 29, 30, 31, 32, 133, 160 :: nat})"

definition py_strip :: "string \<Rightarrow> string" where
  "py_strip s = rev (dropWhile is_space (rev (dropWhile is_space s)))"

text \<open>\<^verbatim>\<open>s.split(d)\<close> for a separator of one character: never an empty list.\<close>

fun split_on :: "char \<Rightarrow> string \<Rightarrow> string list" where
  "split_on d [] = [[]]"
| "split_on d (c # cs) =
     (if c = d then [] # split_on d cs
      else (case split_on d cs of p # ps \<Rightarrow> (c # p) # ps | [] \<Rightarrow> [[c]]))"

definition degree_sign :: char where
  "degree_sign = CHR 0xB0"

subsection \<open>Parsing\<close>

text \<open>
  Two library functions are parameters of the build: \<open>float_of\<close> is the builtin
  \<^verbatim>\<open>float\<close> on a string, and \<open>isoparse\<close> is \<^verbatim>\<open>dtparse.isoparse(s).astimezone(utc)\<close>;
  each returns \<open>None\<close> where the library raises.
\<close>

definition parse_latlng :: "(string \<Rightarrow> pyfloat option) \<Rightarrow> json \<Rightarrow> pyerr + pyfloat \<times> pyfloat" where
  "parse_latlng float_of ll =
     (case ll of
        JStr ll_str \<Rightarrow>
          (let ll_clean = py_strip (filter (\<lambda>c. c \<noteq> degree_sign) ll_str)
           in case map py_strip (split_on (CHR '','') ll_clean) of
                [lat_str, lon_str] \<Rightarrow>
                  (case float_of lat_str of
                     None \<Rightarrow> Inl ValueError
                   | Some la \<Rightarrow>
                       (case float_of lon_str of
                          None \<Rightarrow> Inl ValueError
                        | Some lo \<Rightarrow> Inr (la, lo)))
              | _ \<Rightarrow> Inl ValueError)
      | _ \<Rightarrow> Inl AttributeError)"

definition parse_time :: "(string \<Rightarrow> int option) \<Rightarrow> json \<Rightarrow> pyerr + int" where
  "parse_time isoparse v =
     (case v of
        JStr s \<Rightarrow> (case isoparse s of Some t \<Rightarrow> Inr t | None \<Rightarrow> Inl ValueError)
      | _ \<Rightarrow> Inl TypeError)"

text \<open>
  \<^verbatim>\<open>timedelta / int\<close> divides the microseconds and rounds half to even
  (\<^verbatim>\<open>_divide_and_round\<close> of the standard library).
\<close>

definition divide_and_round :: "int \<Rightarrow> int \<Rightarrow> int" where
  "divide_and_round a b =
     (let q = a div b;
          r = 2 * (a mod b);
          greater_than_half = (if b > 0 then r > b else r < b)
      in if greater_than_half \<or> (r = b \<and> q mod 2 = 1) then q + 1 else q)"

subsection \<open>The build\<close>

text \<open>
  The functions that append to \<^verbatim>\<open>tf_points\<close> return the list after the call, or the
  exception; none of them changes the list before raising.
\<close>

definition add_point_from_path_entry ::
  "(string \<Rightarrow> pyfloat option) \<Rightarrow> (string \<Rightarrow> int option) \<Rightarrow> TimelinePoint list \<Rightarrow> json
     \<Rightarrow> pyerr + TimelinePoint list" where
  "add_point_from_path_entry float_of isoparse tf_points entry =
     (case py_item entry ''point'' of
        Inl e \<Rightarrow> Inl e
      | Inr pt \<Rightarrow>
     (case parse_latlng float_of pt of
        Inl e \<Rightarrow> Inl e
      | Inr (la, lo) \<Rightarrow>
     (case py_item entry ''time'' of
        Inl e \<Rightarrow> Inl e
      | Inr tm \<Rightarrow>
     (case parse_time isoparse tm of
        Inl e \<Rightarrow> Inl e
      | Inr t \<Rightarrow> Inr (tf_points @ [\<lparr>time_utc = t, lat = la, lon = lo\<rparr>])))))"

definition visit_latlng :: "(string \<Rightarrow> pyfloat option) \<Rightarrow> json \<Rightarrow> pyerr + pyfloat \<times> pyfloat" where
  "visit_latlng float_of seg =
     (case py_item seg ''visit'' of
        Inl e \<Rightarrow> Inl e
      | Inr v \<Rightarrow>
     (case py_item v ''topCandidate'' of
        Inl e \<Rightarrow> Inl e
      | Inr tc \<Rightarrow>
     (case py_item tc ''placeLocation'' of
        Inl e \<Rightarrow> Inl e
      | Inr pl \<Rightarrow>
     (case py_item pl ''latLng'' of
        Inl e \<Rightarrow> Inl e
      | Inr loc_str \<Rightarrow> parse_latlng float_of loc_str))))"

definition add_point_from_visit ::
  "(string \<Rightarrow> pyfloat option) \<Rightarrow> (string \<Rightarrow> int option) \<Rightarrow> TimelinePoint list \<Rightarrow> json
     \<Rightarrow> pyerr + TimelinePoint list" where
  "add_point_from_visit float_of isoparse tf_points seg =
     (case visit_latlng float_of seg of
        Inl e \<Rightarrow>
          (if e = KeyError \<or> e = TypeError \<or> e = ValueError then Inr tf_points else Inl e)
      | Inr (la, lo) \<Rightarrow>
     (case py_item seg ''startTime'' of
        Inl e \<Rightarrow> Inl e
      | Inr st \<Rightarrow>
     (case parse_time isoparse st of
        Inl e \<Rightarrow> Inl e
      | Inr start_utc \<Rightarrow>
     (case py_item seg ''endTime'' of
        Inl e \<Rightarrow> Inl e
      | Inr en \<Rightarrow>
     (case parse_time isoparse en of
        Inl e \<Rightarrow> Inl e
      | Inr end_utc \<Rightarrow>
          (let midpoint = start_utc + divide_and_round (end_utc - start_utc) 2
           in Inr (tf_points @ [\<lparr>time_utc = midpoint, lat = la, lon = lo\<rparr>])))))))"

text \<open>
  The loop over the entries of one path segment runs inside the \<^verbatim>\<open>try\<close> of the
  segment: the first entry that raises ends the loop, and the points appended before it
  stay in the list.
\<close>

fun add_path_entries ::
  "(string \<Rightarrow> pyfloat option) \<Rightarrow> (string \<Rightarrow> int option) \<Rightarrow> TimelinePoint list \<Rightarrow> json list
     \<Rightarrow> pyerr option \<times> TimelinePoint list" where
  "add_path_entries float_of isoparse tf_points [] = (None, tf_points)"
| "add_path_entries float_of isoparse tf_points (entry # entries) =
     (case add_point_from_path_entry float_of isoparse tf_points entry of
        Inl e \<Rightarrow> (Some e, tf_points)
      | Inr tf_points' \<Rightarrow> add_path_entries float_of isoparse tf_points' entries)"

text \<open>
  The body of the loop over the segments: every exception is caught (and logged), so the
  step returns the list in every case.
\<close>

definition process_segment ::
  "(string \<Rightarrow> pyfloat option) \<Rightarrow> (string \<Rightarrow> int option) \<Rightarrow> TimelinePoint list \<Rightarrow> json
     \<Rightarrow> TimelinePoint list" where
  "process_segment float_of isoparse tf_points seg =
     (case py_in ''timelinePath'' seg of
        Inl e \<Rightarrow> tf_points
      | Inr True \<Rightarrow>
          (case py_get seg ''timelinePath'' (JArr []) of
             Inl e \<Rightarrow> tf_points
           | Inr path \<Rightarrow>
               (case py_iter path of
                  Inl e \<Rightarrow> tf_points
                | Inr entries \<Rightarrow> snd (add_path_entries float_of isoparse tf_points entries)))
      | Inr False \<Rightarrow>
          (case py_in ''visit'' seg of
             Inl e \<Rightarrow> tf_points
           | Inr True \<Rightarrow>
               (case add_point_from_visit float_of isoparse tf_points seg of
                  Inl e \<Rightarrow> tf_points
                | Inr tf_points' \<Rightarrow> tf_points')
           | Inr False \<Rightarrow> tf_points))"

text \<open>\<^verbatim>\<open>list.sort(key=...)\<close> is stable, as \<open>sort_key\<close> is.\<close>

definition load_timeline_points ::
  "(string \<Rightarrow> pyfloat option) \<Rightarrow> (string \<Rightarrow> int option) \<Rightarrow> json list \<Rightarrow> TimelinePoint list" where
  "load_timeline_points float_of isoparse segments =
     sort_key time_utc (foldl (process_segment float_of isoparse) [] segments)"

section \<open>Photographs\<close>

subsection \<open>The tag map of the metadata codec\<close>

text \<open>
  \<^verbatim>\<open>piexif.load\<close> returns a dict of groups (\<^verbatim>\<open>"0th"\<close>, \<^verbatim>\<open>"Exif"\<close>, \<^verbatim>\<open>"GPS"\<close>, ...),
  each a dict from tag numbers to values: byte strings, integers, tuples of integers and
  tuples of rationals. Dicts are association lists in insertion order; an assignment to a
  present key keeps its place.
\<close>

datatype exif_value = Bytes string | IntV int | Tuple "int list" | Rationals "(int \<times> int) list"

type_synonym ifd = "(nat \<times> exif_value) list"
type_synonym exif_dict = "(string \<times> ifd) list"

definition DateTime :: nat where "DateTime = 306"
definition DateTimeOriginal :: nat where "DateTimeOriginal = 36867"
definition DateTimeDigitized :: nat where "DateTimeDigitized = 36868"
definition OffsetTime :: nat where "OffsetTime = 36880"
definition OffsetTimeOriginal :: nat where "OffsetTimeOriginal = 36881"
definition OffsetTimeDigitized :: nat where "OffsetTimeDigitized = 36882"
definition GPSLatitudeRef :: nat where "GPSLatitudeRef = 1"
definition GPSLatitude :: nat where "GPSLatitude = 2"
definition GPSLongitudeRef :: nat where "GPSLongitudeRef = 3"
definition GPSLongitude :: nat where "GPSLongitude = 4"

text \<open>The truth value of the result of \<^verbatim>\<open>d.get(tag)\<close>: \<^verbatim>\<open>None\<close> and empty values are false.\<close>

fun truthy :: "exif_value option \<Rightarrow> bool" where
  "truthy None = False"
| "truthy (Some (Bytes s)) = (s \<noteq> [])"
| "truthy (Some (IntV n)) = (n \<noteq> 0)"
| "truthy (Some (Tuple xs)) = (xs \<noteq> [])"
| "truthy (Some (Rationals rs)) = (rs \<noteq> [])"

text \<open>\<^verbatim>\<open>exif_dict[ifd][tag] = v\<close>: a missing group raises.\<close>

definition set_tag :: "exif_dict \<Rightarrow> string \<Rightarrow> nat \<Rightarrow> exif_value \<Rightarrow> pyerr + exif_dict" where
  "set_tag exif_dict ifd tag v =
     (case map_of exif_dict ifd of
        None \<Rightarrow> Inl KeyError
      | Some g \<Rightarrow> Inr (AList.update ifd (AList.update tag v g) exif_dict))"

fun set_tags :: "exif_dict \<Rightarrow> (string \<times> nat) list \<Rightarrow> exif_value \<Rightarrow> pyerr + exif_dict" where
  "set_tags exif_dict [] v = Inr exif_dict"
| "set_tags exif_dict ((ifd, tag) # rest) v =
     (case set_tag exif_dict ifd tag v of
        Inl e \<Rightarrow> Inl e
      | Inr exif_dict' \<Rightarrow> set_tags exif_dict' rest v)"

subsection \<open>GPS encoding\<close>

text \<open>
  \<^verbatim>\<open>_deg_to_dms_rational\<close>: every float operation is rounded; \<^verbatim>\<open>int\<close> raises on a NaN
  and on an infinity.
\<close>

definition deg_to_dms_rational :: "pyfloat \<Rightarrow> pyerr + (int \<times> int) list" where
  "deg_to_dms_rational deg_float =
     (case deg_float of
        Finite x \<Rightarrow>
          (let deg_abs = \<bar>x\<bar>;
               deg = int_of_float deg_abs;
               minutes_float = round64 (round64 (deg_abs - of_int deg) * 60);
               minutes = int_of_float minutes_float;
               seconds = round64 (round64 (minutes_float - of_int minutes) * 60)
           in Inr [(deg, 1), (minutes, 1), (int_of_float (round64 (seconds * 100)), 100)])
      | NaN \<Rightarrow> Inl ValueError
      | _ \<Rightarrow> Inl OverflowError)"

text \<open>\<^verbatim>\<open>x >= 0\<close> on a float.\<close>

fun float_ge_0 :: "pyfloat \<Rightarrow> bool" where
  "float_ge_0 (Finite x) = (0 \<le> x)"
| "float_ge_0 PosInf = True"
| "float_ge_0 NegInf = False"
| "float_ge_0 NaN = False"

definition write_gps :: "exif_dict \<Rightarrow> pyfloat \<Rightarrow> pyfloat \<Rightarrow> pyerr + exif_dict" where
  "write_gps exif_dict la lo =
     (let gps_ifd = (case map_of exif_dict ''GPS'' of Some g \<Rightarrow> g | None \<Rightarrow> []);
          gps_ifd = AList.update GPSLatitudeRef (Bytes (if float_ge_0 la then ''N'' else ''S'')) gps_ifd
      in case deg_to_dms_rational la of
           Inl e \<Rightarrow> Inl e
         | Inr dms_lat \<Rightarrow>
             (let gps_ifd = AList.update GPSLatitude (Rationals dms_lat) gps_ifd;
                  gps_ifd = AList.update GPSLongitudeRef
                              (Bytes (if float_ge_0 lo then ''E'' else ''W'')) gps_ifd
              in case deg_to_dms_rational lo of
                   Inl e \<Rightarrow> Inl e
                 | Inr dms_lon \<Rightarrow>
                     Inr (AList.update ''GPS''
                            (AList.update GPSLongitude (Rationals dms_lon) gps_ifd) exif_dict)))"

subsection \<open>Collaborators\<close>

text \<open>
  The codec, the file system and the timezone libraries are parameters. \<open>'fs\<close> is the
  state of the files.
  \<^item> \<open>piexif_load fs path\<close>: the tag map of the file, \<open>None\<close> where \<^verbatim>\<open>piexif.load\<close> raises;
  \<^item> \<open>piexif_insert fs path d\<close>: \<^verbatim>\<open>piexif.insert(piexif.dump(d), path)\<close>, whether it
    returned, and the files after it;
  \<^item> \<open>copy_backup fs path\<close>: the files after the backup block (the copy is skipped when
    the backup exists, and an exception of the copy is caught);
  \<^item> \<open>photo_instant b\<close>: \<^verbatim>\<open>b.decode()\<close>, \<^verbatim>\<open>strptime\<close>, \<^verbatim>\<open>camera_tz.localize\<close> and
    \<^verbatim>\<open>astimezone(utc)\<close>, \<open>None\<close> where one of them raises;
  \<^item> \<open>timezone_at la lo\<close>: \<^verbatim>\<open>tf.timezone_at\<close>, \<open>None\<close> where it raises, \<open>Some None\<close>
    where no zone covers the coordinate;
  \<^item> \<open>local_time tz t\<close>: \<^verbatim>\<open>pytz.timezone(tz)\<close> and \<^verbatim>\<open>astimezone\<close>, giving the result of
    \<^verbatim>\<open>strftime\<close> and of \<^verbatim>\<open>utcoffset()\<close>, \<open>None\<close> where one of them raises.
\<close>

record 'fs collaborators =
  piexif_load :: "'fs \<Rightarrow> string \<Rightarrow> exif_dict option"
  piexif_insert :: "'fs \<Rightarrow> string \<Rightarrow> exif_dict \<Rightarrow> bool \<times> 'fs"
  copy_backup :: "'fs \<Rightarrow> string \<Rightarrow> 'fs"
  photo_instant :: "string \<Rightarrow> int option"
  timezone_at :: "pyfloat \<Rightarrow> pyfloat \<Rightarrow> string option option"
  local_time :: "string \<Rightarrow> int \<Rightarrow> (string \<times> int option) option"

subsection \<open>Rewriting one photograph\<close>

datatype outcome = Returned bool | Raised pyerr

text \<open>The test of \<^verbatim>\<open>update_photo\<close> for GPS tags already present.\<close>

definition has_gps :: "exif_dict \<Rightarrow> bool" where
  "has_gps exif_dict =
     (let gps_ifd_existing = (case map_of exif_dict ''GPS'' of Some g \<Rightarrow> g | None \<Rightarrow> [])
      in truthy (map_of gps_ifd_existing GPSLatitude)
         \<and> truthy (map_of gps_ifd_existing GPSLongitude))"

text \<open>
  The tag map after the three date fields, the three offset fields and the GPS fields
  are set, or the exception of the first assignment that raises.
\<close>

definition updated_exif :: "exif_dict \<Rightarrow> string \<Rightarrow> string \<Rightarrow> TimelinePoint \<Rightarrow> pyerr + exif_dict" where
  "updated_exif exif_dict dt_bytes offset_str tl_point =
     (case set_tags exif_dict
             [(''Exif'', DateTimeOriginal), (''Exif'', DateTimeDigitized), (''0th'', DateTime)]
             (Bytes dt_bytes) of
        Inl e \<Rightarrow> Inl e
      | Inr d1 \<Rightarrow>
     (case set_tags d1
             [(''Exif'', OffsetTime), (''Exif'', OffsetTimeOriginal),
              (''Exif'', OffsetTimeDigitized)]
             (Bytes offset_str) of
        Inl e \<Rightarrow> Inl e
      | Inr d2 \<Rightarrow> write_gps d2 (lat tl_point) (lon tl_point)))"

definition update_photo ::
  "'fs collaborators \<Rightarrow> 'fs \<Rightarrow> string \<Rightarrow> TimelinePoint \<Rightarrow> bool \<Rightarrow> bool \<Rightarrow> bool
     \<Rightarrow> outcome \<times> 'fs" where
  "update_photo c fs filepath tl_point apply backup overwrite_gps =
     (case piexif_load c fs filepath of
        None \<Rightarrow> (Raised OtherError, fs)
      | Some exif_dict \<Rightarrow>
     if \<not> overwrite_gps \<and> has_gps exif_dict then (Returned False, fs)
     else
     (case map_of exif_dict ''Exif'' of
        None \<Rightarrow> (Returned False, fs)
      | Some exif_ifd \<Rightarrow>
     (case map_of exif_ifd DateTimeOriginal of
        None \<Rightarrow> (Returned False, fs)
      | Some (Bytes original) \<Rightarrow>
         (case photo_instant c original of
            None \<Rightarrow> (Raised ValueError, fs)
          | Some aware_utc \<Rightarrow>
         (case timezone_at c (lat tl_point) (lon tl_point) of
            None \<Rightarrow> (Raised ValueError, fs)
          | Some None \<Rightarrow> (Returned False, fs)
          | Some (Some tz_name) \<Rightarrow>
         (case local_time c tz_name aware_utc of
            None \<Rightarrow> (Raised OtherError, fs)
          | Some (local_dt_str, utcoffset) \<Rightarrow>
             (let offset = (case utcoffset of None \<Rightarrow> 0 | Some d \<Rightarrow> d);
                  offset_str = format_tz_offset offset
              in case updated_exif exif_dict local_dt_str offset_str tl_point of
                   Inl e \<Rightarrow> (Raised e, fs)
                 | Inr exif_dict' \<Rightarrow>
                     if apply then
                       (let fs1 = (if backup then copy_backup c fs filepath else fs)
                        in case piexif_insert c fs1 filepath exif_dict' of
                             (True, fs2) \<Rightarrow> (Returned True, fs2)
                           | (False, fs2) \<Rightarrow> (Raised OtherError, fs2))
                     else (Returned True, fs)))))
      | Some _ \<Rightarrow> (Raised AttributeError, fs))))"

subsection \<open>The batch driver\<close>

text \<open>
  The state of the loop of \<^verbatim>\<open>main\<close>: the files, the two counters, and the timeline index
  the loop holds.
\<close>

record 'fs run_state =
  files :: 'fs
  index :: "TimelinePoint list"
  processed :: nat
  skipped :: nat

definition skip :: "'fs run_state \<Rightarrow> 'fs run_state" where
  "skip st = st\<lparr>skipped := skipped st + 1\<rparr>"

definition process_photo ::
  "'fs collaborators \<Rightarrow> int \<Rightarrow> bool \<Rightarrow> bool \<Rightarrow> bool \<Rightarrow> 'fs run_state \<Rightarrow> string
     \<Rightarrow> 'fs run_state" where
  "process_photo c max_gap apply backup overwrite_gps st photo =
     (case piexif_load c (files st) photo of
        None \<Rightarrow> skip st
      | Some exif_dict \<Rightarrow>
     (case map_of exif_dict ''Exif'' of
        None \<Rightarrow> skip st
      | Some exif_ifd \<Rightarrow>
     (let orig_bytes = map_of exif_ifd DateTimeOriginal
      in if \<not> truthy orig_bytes then skip st
         else
         (case orig_bytes of
            Some (Bytes b) \<Rightarrow>
              (case photo_instant c b of
                 None \<Rightarrow> skip st
               | Some photo_dt_utc \<Rightarrow>
              (case find_nearest_timeline_point (index st) photo_dt_utc of
                 None \<Rightarrow> skip st
               | Some tl_point \<Rightarrow>
                   if \<bar>time_utc tl_point - photo_dt_utc\<bar> > max_gap then skip st
                   else
                   (case update_photo c (files st) photo tl_point apply backup overwrite_gps of
                      (Returned would_update, fs') \<Rightarrow>
                        if would_update then st\<lparr>files := fs', processed := processed st + 1\<rparr>
                        else st\<lparr>files := fs'\<rparr>
                    | (Raised e, fs') \<Rightarrow> skip (st\<lparr>files := fs'\<rparr>))))
          | _ \<Rightarrow> skip st))))"

definition photo_loop ::
  "'fs collaborators \<Rightarrow> int \<Rightarrow> bool \<Rightarrow> bool \<Rightarrow> bool \<Rightarrow> 'fs \<Rightarrow> TimelinePoint list
     \<Rightarrow> string list \<Rightarrow> 'fs run_state" where
  "photo_loop c max_gap apply backup overwrite_gps fs points photo_paths =
     foldl (process_photo c max_gap apply backup overwrite_gps)
       \<lparr>files = fs, index = points, processed = 0, skipped = 0\<rparr> photo_paths"

text \<open>
  \<^verbatim>\<open>main\<close> after the arguments are parsed: \<open>None\<close> is \<^verbatim>\<open>sys.exit(1)\<close>, taken when no
  timeline point was extracted or no photograph was found.
\<close>

definition main ::
  "'fs collaborators \<Rightarrow> (string \<Rightarrow> pyfloat option) \<Rightarrow> (string \<Rightarrow> int option) \<Rightarrow> json list
     \<Rightarrow> string list \<Rightarrow> int \<Rightarrow> bool \<Rightarrow> bool \<Rightarrow> bool \<Rightarrow> 'fs \<Rightarrow> 'fs run_state option" where
  "main c float_of isoparse segments photo_paths max_gap apply backup overwrite_gps fs =
     (let points = load_timeline_points float_of isoparse segments
      in if points = [] then None
         else if photo_paths = [] then None
         else Some (photo_loop c max_gap apply backup overwrite_gps fs points photo_paths))"

text \<open>\<^verbatim>\<open>exif_dict[ifd].get(tag)\<close> on a tag map, \<open>None\<close> also where the group is missing.\<close>

definition get_tag :: "exif_dict \<Rightarrow> string \<Rightarrow> nat \<Rightarrow> exif_value option" where
  "get_tag exif_dict ifd tag =
     (case map_of exif_dict ifd of None \<Rightarrow> None | Some g \<Rightarrow> map_of g tag)"

subsection \<open>Decoding, as the specification words it\<close>

text \<open>
  The program only encodes. The decoding of the round trip follows the words of the
  specification: degrees plus minutes over 60 plus seconds over 3600, each a rational of
  the tag, negated for the hemisphere letters \<open>S\<close> and \<open>W\<close>. It is exact arithmetic.
\<close>

definition spec_dms_decode :: "string \<Rightarrow> (int \<times> int) list \<Rightarrow> rat" where
  "spec_dms_decode ref dms =
     (case dms of
        [(d, dd), (m, md), (s, sd)] \<Rightarrow>
          (if ref = ''S'' \<or> ref = ''W'' then - 1 else 1)
          * (of_int d / of_int dd + (of_int m / of_int md) / 60 + (of_int s / of_int sd) / 3600)
      | _ \<Rightarrow> 0)"

section \<open>Concrete inputs\<close>

text \<open>Three samples, ten microseconds apart.\<close>

definition sample_a :: TimelinePoint where
  "sample_a = \<lparr>time_utc = 0, lat = Finite 1, lon = Finite 1\<rparr>"
definition sample_b :: TimelinePoint where
  "sample_b = \<lparr>time_utc = 10, lat = Finite 2, lon = Finite 2\<rparr>"
definition sample_c :: TimelinePoint where
  "sample_c = \<lparr>time_utc = 20, lat = Finite 3, lon = Finite 3\<rparr>"

subsection \<open>The library functions on plain inputs\<close>

text \<open>
  The concrete runs below need values for the parameters. These are the library functions
  restricted to the plain forms the runs use, and \<open>None\<close> elsewhere: a decimal numeral
  \<^verbatim>\<open>[-]digits[.digits]\<close> for \<^verbatim>\<open>float\<close> (correctly rounded), and the timestamps
  \<^verbatim>\<open>YYYY-MM-DDTHH:MM:SSZ\<close> and \<^verbatim>\<open>YYYY:MM:DD HH:MM:SS\<close> in the proleptic Gregorian calendar.
\<close>

definition digit_val :: "char \<Rightarrow> nat option" where
  "digit_val c = (let n = (of_char c :: nat) in if 48 \<le> n \<and> n \<le> 57 then Some (n - 48) else None)"

fun digits_acc :: "nat \<Rightarrow> string \<Rightarrow> nat option" where
  "digits_acc a [] = Some a"
| "digits_acc a (c # cs) =
     (case digit_val c of None \<Rightarrow> None | Some d \<Rightarrow> digits_acc (10 * a + d) cs)"

definition nat_of_digits :: "string \<Rightarrow> nat option" where
  "nat_of_digits s = (if s = [] then None else digits_acc 0 s)"

definition float_plain :: "string \<Rightarrow> pyfloat option" where
  "float_plain s =
     (let t = py_strip s;
          neg = (t \<noteq> [] \<and> hd t = CHR ''-'');
          body = (if neg then tl t else t);
          sgn = (if neg then - 1 else 1 :: rat)
      in case split_on (CHR ''.'') body of
           [ip] \<Rightarrow>
             (case nat_of_digits ip of
                Some n \<Rightarrow> Some (Finite (round64 (sgn * of_nat n)))
              | None \<Rightarrow> None)
         | [ip, fp] \<Rightarrow>
             (case (nat_of_digits ip, nat_of_digits fp) of
                (Some n, Some f) \<Rightarrow>
                  Some (Finite (round64 (sgn * (of_nat n + of_nat f / 10 ^ length fp))))
              | _ \<Rightarrow> None)
         | _ \<Rightarrow> None)"

definition days_from_civil :: "int \<Rightarrow> int \<Rightarrow> int \<Rightarrow> int" where
  "days_from_civil y m d =
     (let y' = (if m \<le> 2 then y - 1 else y);
          era = y' div 400;
          yoe = y' - era * 400;
          doy = (153 * (if m > 2 then m - 3 else m + 9) + 2) div 5 + d - 1;
          doe = yoe * 365 + yoe div 4 - yoe div 100 + doy
      in era * 146097 + doe - 719468)"

definition civil_from_days :: "int \<Rightarrow> int \<times> int \<times> int" where
  "civil_from_days z0 =
     (let z = z0 + 719468;
          era = z div 146097;
          doe = z - era * 146097;
          yoe = (doe - doe div 1460 + doe div 36524 - doe div 146096) div 365;
          doy = doe - (365 * yoe + yoe div 4 - yoe div 100);
          mp = (5 * doy + 2) div 153;
          d = doy - (153 * mp + 2) div 5 + 1;
          m = (if mp < 10 then mp + 3 else mp - 9);
          y = yoe + era * 400 + (if m \<le> 2 then 1 else 0)
      in (y, m, d))"

definition days_in_month :: "int \<Rightarrow> int \<Rightarrow> int" where
  "days_in_month y m =
     (if m = 2 then (if y mod 4 = 0 \<and> (y mod 100 \<noteq> 0 \<or> y mod 400 = 0) then 29 else 28)
      else if m = 4 \<or> m = 6 \<or> m = 9 \<or> m = 11 then 30 else 31)"

text \<open>Seconds since the epoch of a timestamp of 19 characters with the given separators.\<close>

definition plain_timestamp :: "char \<Rightarrow> char \<Rightarrow> string \<Rightarrow> int option" where
  "plain_timestamp dsep tsep s =
     (if length s = 19 \<and> s ! 4 = dsep \<and> s ! 7 = dsep \<and> s ! 10 = tsep
         \<and> s ! 13 = CHR '':'' \<and> s ! 16 = CHR '':''
      then
        (case map nat_of_digits
                [take 4 s, take 2 (drop 5 s), take 2 (drop 8 s),
                 take 2 (drop 11 s), take 2 (drop 14 s), take 2 (drop 17 s)] of
           [Some y, Some m, Some d, Some hh, Some mi, Some ss] \<Rightarrow>
             if 1 \<le> y \<and> 1 \<le> m \<and> m \<le> 12 \<and> 1 \<le> d \<and> int d \<le> days_in_month (int y) (int m)
                \<and> hh < 24 \<and> mi < 60 \<and> ss < 60
             then Some (((days_from_civil (int y) (int m) (int d) * 24 + int hh) * 60 + int mi) * 60
                        + int ss)
             else None
         | _ \<Rightarrow> None)
      else None)"

definition iso_plain :: "string \<Rightarrow> int option" where
  "iso_plain s =
     (if length s = 20 \<and> last s = CHR ''Z'' then
        (case plain_timestamp (CHR ''-'') (CHR ''T'') (butlast s) of
           Some secs \<Rightarrow> Some (secs * 1000000)
         | None \<Rightarrow> None)
      else None)"

text \<open>A camera zone at a fixed offset of \<open>off\<close> seconds from UTC.\<close>

definition exif_plain :: "int \<Rightarrow> string \<Rightarrow> int option" where
  "exif_plain off s =
     (case plain_timestamp (CHR '':'') (CHR '' '') s of
        Some secs \<Rightarrow> Some ((secs - off) * 1000000)
      | None \<Rightarrow> None)"

definition fmt_width :: "nat \<Rightarrow> nat \<Rightarrow> string" where
  "fmt_width w n = (let s = dec_digits n in replicate (w - length s) (CHR ''0'') @ s)"

text \<open>\<^verbatim>\<open>strftime("%Y:%m:%d %H:%M:%S")\<close> of the local time \<open>t\<close> microseconds after the epoch.\<close>

definition fmt_local :: "int \<Rightarrow> string" where
  "fmt_local t =
     (let secs = t div 1000000;
          days = secs div 86400;
          sod = secs mod 86400;
          (y, m, d) = civil_from_days days
      in fmt_width 4 (nat y) @ '':'' @ fmt_width 2 (nat m) @ '':'' @ fmt_width 2 (nat d) @ '' ''
         @ fmt_width 2 (nat (sod div 3600)) @ '':'' @ fmt_width 2 (nat (sod mod 3600 div 60))
         @ '':'' @ fmt_width 2 (nat (sod mod 60)))"

subsection \<open>A file system and libraries for the concrete runs\<close>

text \<open>
  The files are an association list from paths to tag maps; \<^verbatim>\<open>insert\<close> always succeeds;
  the camera zone is seven hours behind UTC; one zone, nine hours ahead of UTC, covers
  the coordinates between 24 and 46 degrees north and 123 and 146 degrees east.
\<close>

definition demo_backup :: "(string \<times> exif_dict) list \<Rightarrow> string \<Rightarrow> (string \<times> exif_dict) list" where
  "demo_backup fs path =
     (case map_of fs (path @ ''.exif_backup'') of
        Some _ \<Rightarrow> fs
      | None \<Rightarrow> (case map_of fs path of Some d \<Rightarrow> fs @ [(path @ ''.exif_backup'', d)] | None \<Rightarrow> fs))"

definition demo_timezone_at :: "pyfloat \<Rightarrow> pyfloat \<Rightarrow> string option option" where
  "demo_timezone_at la lo =
     (case (la, lo) of
        (Finite a, Finite b) \<Rightarrow>
          if 24 \<le> a \<and> a \<le> 46 \<and> 123 \<le> b \<and> b \<le> 146 then Some (Some ''Asia/Tokyo'')
          else Some None
      | _ \<Rightarrow> None)"

definition demo_local_time :: "string \<Rightarrow> int \<Rightarrow> (string \<times> int option) option" where
  "demo_local_time tz t =
     (if tz = ''Asia/Tokyo'' then Some (fmt_local (t + 32400000000), Some 32400000000)
      else None)"

definition demo :: "(string \<times> exif_dict) list collaborators" where
  "demo = \<lparr>piexif_load = map_of,
           piexif_insert = (\<lambda>fs path d. (True, AList.update path d fs)),
           copy_backup = demo_backup,
           photo_instant = exif_plain (- 25200),
           timezone_at = demo_timezone_at,
           local_time = demo_local_time\<rparr>"

text \<open>A visit from 10:00 to 12:00 UTC on 2024-01-01.\<close>

definition visit_example :: json where
  "visit_example =
     JObj [(''startTime'', JStr ''2024-01-01T10:00:00Z''),
           (''endTime'', JStr ''2024-01-01T12:00:00Z''),
           (''visit'', JObj [(''topCandidate'',
              JObj [(''placeLocation'', JObj [(''latLng'', JStr (''35.0'' @ [degree_sign] @ '', 139.0'' @ [degree_sign]))])])])]"

text \<open>A path of two entries; in the second segment the first coordinate string is malformed.\<close>

definition path_entry_1 :: json where
  "path_entry_1 = JObj [(''point'', JStr (''35.5'' @ [degree_sign] @ '', 139.5'' @ [degree_sign])),
                        (''time'', JStr ''2024-06-01T18:00:00Z'')]"

definition path_entry_2 :: json where
  "path_entry_2 = JObj [(''point'', JStr (''35.0'' @ [degree_sign] @ '', 139.0'' @ [degree_sign])),
                        (''time'', JStr ''2024-06-01T17:00:00Z'')]"

definition path_entry_bad :: json where
  "path_entry_bad = JObj [(''point'', JStr ''35.0 139.0''),
                          (''time'', JStr ''2024-06-01T16:00:00Z'')]"

definition path_example :: json where
  "path_example = JObj [(''timelinePath'', JArr [path_entry_1, path_entry_2])]"

definition path_bad_first :: json where
  "path_bad_first = JObj [(''timelinePath'', JArr [path_entry_bad, path_entry_2])]"

definition path_bad_middle :: json where
  "path_bad_middle = JObj [(''timelinePath'', JArr [path_entry_1, path_entry_bad, path_entry_2])]"

text \<open>
  Photographs taken at 10:30:00 on 2024-06-01 in the camera zone (17:30:00 UTC): one without
  GPS tags, one with both coordinate tags, one with the latitude tag only; a photograph
  taken a day later. The index holds one sample, at 18:00:00 UTC on 2024-06-01.
\<close>

definition photo_untagged :: exif_dict where
  "photo_untagged =
     [(''0th'', []), (''Exif'', [(DateTimeOriginal, Bytes ''2024:06:01 10:30:00'')]), (''GPS'', [])]"

definition photo_tagged :: exif_dict where
  "photo_tagged =
     [(''0th'', []), (''Exif'', [(DateTimeOriginal, Bytes ''2024:06:01 10:30:00'')]),
      (''GPS'', [(GPSLatitudeRef, Bytes ''N''), (GPSLatitude, Rationals [(34, 1), (0, 1), (0, 100)]),
                 (GPSLongitudeRef, Bytes ''E''), (GPSLongitude, Rationals [(135, 1), (0, 1), (0, 100)])])]"

definition photo_latitude_only :: exif_dict where
  "photo_latitude_only =
     [(''0th'', []), (''Exif'', [(DateTimeOriginal, Bytes ''2024:06:01 10:30:00'')]),
      (''GPS'', [(GPSLatitudeRef, Bytes ''N''), (GPSLatitude, Rationals [(34, 1), (0, 1), (0, 100)])])]"

definition photo_next_day :: exif_dict where
  "photo_next_day =
     [(''0th'', []), (''Exif'', [(DateTimeOriginal, Bytes ''2024:06:02 10:30:00'')]), (''GPS'', [])]"

definition demo_files :: "(string \<times> exif_dict) list" where
  "demo_files = [(''a.jpg'', photo_untagged), (''b.jpg'', photo_tagged),
                 (''c.jpg'', photo_latitude_only), (''d.jpg'', photo_next_day)]"

definition demo_sample :: TimelinePoint where
  "demo_sample = \<lparr>time_utc = 1717264800000000, lat = Finite 35, lon = Finite 139\<rparr>"

text \<open>One hour, in microseconds.\<close>

definition one_hour :: int where
  "one_hour = 3600000000"

section \<open>Lemmas: nearest sample\<close>

subsection \<open>The binary search on a sorted list\<close>

lemma bisect_left_loop_spec:
  assumes "sorted a" and "lo \<le> hi" and "hi \<le> length a"
    and "\<forall>i<lo. a ! i < x" and "\<forall>i. hi \<le> i \<and> i < length a \<longrightarrow> x \<le> a ! i"
  shows "lo \<le> bisect_left_loop a x lo hi \<and> bisect_left_loop a x lo hi \<le> hi
       \<and> (\<forall>i<bisect_left_loop a x lo hi. a ! i < x)
       \<and> (\<forall>i. bisect_left_loop a x lo hi \<le> i \<and> i < length a \<longrightarrow> x \<le> a ! i)"
  using assms
proof (induction a x lo hi rule: bisect_left_loop.induct)
  case (1 a x lo hi)
  show ?case
  proof (cases "lo < hi")
    case False
    then have "bisect_left_loop a x lo hi = lo"
      by (simp add: bisect_left_loop.simps [of a x lo hi])
    moreover from False "1.prems" have "lo = hi" by simp
    ultimately show ?thesis using "1.prems" by simp
  next
    case True
    define mid where "mid = (lo + hi) div 2"
    have mid: "lo \<le> mid" "mid < hi" using True by (simp_all add: mid_def)
    show ?thesis
    proof (cases "a ! mid < x")
      case less: True
      have below: "\<forall>i<mid + 1. a ! i < x"
      proof (intro allI impI)
        fix i assume "i < mid + 1"
        then have "i \<le> mid" by simp
        moreover have "mid < length a" using mid "1.prems" by simp
        ultimately have "a ! i \<le> a ! mid"
          using \<open>sorted a\<close> by (simp add: sorted_nth_mono)
        with less show "a ! i < x" by simp
      qed
      have eq: "bisect_left_loop a x lo hi = bisect_left_loop a x (mid + 1) hi"
        using True less by (simp add: bisect_left_loop.simps [of a x lo hi] mid_def Let_def)
      have "mid + 1 \<le> bisect_left_loop a x (mid + 1) hi \<and> bisect_left_loop a x (mid + 1) hi \<le> hi
          \<and> (\<forall>i<bisect_left_loop a x (mid + 1) hi. a ! i < x)
          \<and> (\<forall>i. bisect_left_loop a x (mid + 1) hi \<le> i \<and> i < length a \<longrightarrow> x \<le> a ! i)"
        using "1.IH"(1) [OF True mid_def less] "1.prems" mid below by simp
      with eq mid show ?thesis by simp
    next
      case geq: False
      have above: "\<forall>i. mid \<le> i \<and> i < length a \<longrightarrow> x \<le> a ! i"
      proof (intro allI impI)
        fix i assume "mid \<le> i \<and> i < length a"
        then have "a ! mid \<le> a ! i"
          using \<open>sorted a\<close> by (simp add: sorted_nth_mono)
        with geq show "x \<le> a ! i" by simp
      qed
      have eq: "bisect_left_loop a x lo hi = bisect_left_loop a x lo mid"
        using True geq by (simp add: bisect_left_loop.simps [of a x lo hi] mid_def Let_def)
      have "lo \<le> bisect_left_loop a x lo mid \<and> bisect_left_loop a x lo mid \<le> mid
          \<and> (\<forall>i<bisect_left_loop a x lo mid. a ! i < x)
          \<and> (\<forall>i. bisect_left_loop a x lo mid \<le> i \<and> i < length a \<longrightarrow> x \<le> a ! i)"
        using "1.IH"(2) [OF True mid_def geq] "1.prems" mid above by simp
      with eq mid show ?thesis by simp
    qed
  qed
qed

lemma bisect_left_sorted:
  assumes "sorted a"
  shows "bisect_left a x \<le> length a"
    and "\<forall>i<bisect_left a x. a ! i < x"
    and "\<forall>i. bisect_left a x \<le> i \<and> i < length a \<longrightarrow> x \<le> a ! i"
  using bisect_left_loop_spec [OF assms, of 0 "length a" x]
  by (simp_all add: bisect_left_def)

lemma bisect_left_loop_bounds:
  "lo \<le> hi \<Longrightarrow> lo \<le> bisect_left_loop a x lo hi \<and> bisect_left_loop a x lo hi \<le> hi"
proof (induction a x lo hi rule: bisect_left_loop.induct)
  case (1 a x lo hi)
  show ?case
  proof (cases "lo < hi")
    case False
    then have "bisect_left_loop a x lo hi = lo"
      by (simp add: bisect_left_loop.simps [of a x lo hi])
    with "1.prems" show ?thesis by simp
  next
    case True
    define mid where "mid = (lo + hi) div 2"
    have mid: "lo \<le> mid" "mid < hi" using True by (simp_all add: mid_def)
    show ?thesis
    proof (cases "a ! mid < x")
      case less: True
      have "bisect_left_loop a x lo hi = bisect_left_loop a x (mid + 1) hi"
        using True less by (simp add: bisect_left_loop.simps [of a x lo hi] mid_def Let_def)
      moreover have "mid + 1 \<le> bisect_left_loop a x (mid + 1) hi
          \<and> bisect_left_loop a x (mid + 1) hi \<le> hi"
        using "1.IH"(1) [OF True mid_def less] mid by simp
      ultimately show ?thesis using mid by simp
    next
      case geq: False
      have "bisect_left_loop a x lo hi = bisect_left_loop a x lo mid"
        using True geq by (simp add: bisect_left_loop.simps [of a x lo hi] mid_def Let_def)
      moreover have "lo \<le> bisect_left_loop a x lo mid \<and> bisect_left_loop a x lo mid \<le> mid"
        using "1.IH"(2) [OF True mid_def geq] mid by simp
      ultimately show ?thesis using mid by simp
    qed
  qed
qed

lemma bisect_left_le_length: "bisect_left a x \<le> length a"
  using bisect_left_loop_bounds [of 0 "length a" a x] by (simp add: bisect_left_def)

subsection \<open>The result of the lookup\<close>

lemma find_nearest_cases:
  "find_nearest_timeline_point points ts =
     (let idx = bisect_left (map time_utc points) ts
      in if points = [] then None
         else if idx = 0 then Some (points ! 0)
         else if idx = length points then Some (points ! (idx - 1))
         else Some (if \<bar>time_utc (points ! (idx - 1)) - ts\<bar> < \<bar>time_utc (points ! idx) - ts\<bar>
                    then points ! (idx - 1) else points ! idx))"
proof -
  have "bisect_left (map time_utc points) ts \<le> length points"
    using bisect_left_le_length [of "map time_utc points" ts] by simp
  then show ?thesis
    by (auto simp: find_nearest_timeline_point_def Let_def)
qed

lemma nearest_is_minimal:
  assumes srt: "sorted (map time_utc points)" and ne: "points \<noteq> []"
  shows "\<exists>p. find_nearest_timeline_point points ts = Some p \<and> p \<in> set points
           \<and> (\<forall>q\<in>set points. \<bar>time_utc p - ts\<bar> \<le> \<bar>time_utc q - ts\<bar>)"
proof -
  define keys where "keys = map time_utc points"
  define idx where "idx = bisect_left keys ts"
  have len: "length keys = length points" by (simp add: keys_def)
  have idx_le: "idx \<le> length points"
    using bisect_left_sorted(1) [of keys ts] srt by (simp add: idx_def keys_def)
  have below: "\<And>i. i < idx \<Longrightarrow> time_utc (points ! i) < ts"
  proof -
    fix i assume i: "i < idx"
    then have "keys ! i < ts"
      using bisect_left_sorted(2) [of keys ts] srt by (simp add: idx_def keys_def)
    moreover have "i < length points" using i idx_le by simp
    ultimately show "time_utc (points ! i) < ts" by (simp add: keys_def)
  qed
  have above: "\<And>i. idx \<le> i \<Longrightarrow> i < length points \<Longrightarrow> ts \<le> time_utc (points ! i)"
  proof -
    fix i assume i: "idx \<le> i" "i < length points"
    then have "ts \<le> keys ! i"
      using bisect_left_sorted(3) [of keys ts] srt len by (simp add: idx_def keys_def)
    with i show "ts \<le> time_utc (points ! i)" by (simp add: keys_def)
  qed
  have mono: "\<And>i j. i \<le> j \<Longrightarrow> j < length points \<Longrightarrow> time_utc (points ! i) \<le> time_utc (points ! j)"
  proof -
    fix i j assume ij: "i \<le> j" "j < length points"
    then have "keys ! i \<le> keys ! j"
      using srt sorted_nth_mono [of keys i j] by (simp add: keys_def)
    with ij show "time_utc (points ! i) \<le> time_utc (points ! j)" by (simp add: keys_def)
  qed
  have left_best: "\<And>i. i < idx \<Longrightarrow> \<bar>time_utc (points ! (idx - 1)) - ts\<bar> \<le> \<bar>time_utc (points ! i) - ts\<bar>"
  proof -
    fix i assume i: "i < idx"
    have "time_utc (points ! i) \<le> time_utc (points ! (idx - 1))"
      using mono [of i "idx - 1"] i idx_le by simp
    moreover have "time_utc (points ! (idx - 1)) < ts" using below [of "idx - 1"] i by simp
    ultimately show "\<bar>time_utc (points ! (idx - 1)) - ts\<bar> \<le> \<bar>time_utc (points ! i) - ts\<bar>" by simp
  qed
  have right_best: "\<And>i. idx \<le> i \<Longrightarrow> i < length points \<Longrightarrow> \<bar>time_utc (points ! idx) - ts\<bar> \<le> \<bar>time_utc (points ! i) - ts\<bar>"
  proof -
    fix i assume i: "idx \<le> i" "i < length points"
    have "time_utc (points ! idx) \<le> time_utc (points ! i)" using mono [of idx i] i by simp
    moreover have "ts \<le> time_utc (points ! idx)" using above [of idx] i by simp
    ultimately show "\<bar>time_utc (points ! idx) - ts\<bar> \<le> \<bar>time_utc (points ! i) - ts\<bar>" by simp
  qed
  have cases: "find_nearest_timeline_point points ts =
     (if idx = 0 then Some (points ! 0)
      else if idx = length points then Some (points ! (idx - 1))
      else Some (if \<bar>time_utc (points ! (idx - 1)) - ts\<bar> < \<bar>time_utc (points ! idx) - ts\<bar>
                 then points ! (idx - 1) else points ! idx))"
    using ne by (simp add: find_nearest_cases idx_def keys_def Let_def)
  have all_idx: "\<And>P. (\<forall>q\<in>set points. P q) = (\<forall>i<length points. P (points ! i))"
    by (simp add: all_set_conv_all_nth)
  consider (first) "idx = 0" | (last) "idx = length points" "idx \<noteq> 0"
    | (mid) "0 < idx" "idx < length points"
    using idx_le by linarith
  then show ?thesis
  proof cases
    case first
    have "\<forall>i<length points. \<bar>time_utc (points ! 0) - ts\<bar> \<le> \<bar>time_utc (points ! i) - ts\<bar>"
      using right_best first by simp
    then show ?thesis using cases first ne by (simp add: all_idx)
  next
    case last
    have "\<forall>i<length points. \<bar>time_utc (points ! (idx - 1)) - ts\<bar> \<le> \<bar>time_utc (points ! i) - ts\<bar>"
      using left_best last by simp
    then show ?thesis using cases last ne by (simp add: all_idx)
  next
    case mid
    let ?l = "points ! (idx - 1)" and ?r = "points ! idx"
    show ?thesis
    proof (cases "\<bar>time_utc ?l - ts\<bar> < \<bar>time_utc ?r - ts\<bar>")
      case True
      have "\<forall>i<length points. \<bar>time_utc ?l - ts\<bar> \<le> \<bar>time_utc (points ! i) - ts\<bar>"
      proof (intro allI impI)
        fix i assume "i < length points"
        then show "\<bar>time_utc ?l - ts\<bar> \<le> \<bar>time_utc (points ! i) - ts\<bar>"
          using left_best [of i] right_best [of i] True by (cases "i < idx") simp_all
      qed
      moreover have "find_nearest_timeline_point points ts = Some ?l"
        using cases mid True by simp
      moreover have "?l \<in> set points" using mid by simp
      ultimately show ?thesis by (simp add: all_idx)
    next
      case False
      have "\<forall>i<length points. \<bar>time_utc ?r - ts\<bar> \<le> \<bar>time_utc (points ! i) - ts\<bar>"
      proof (intro allI impI)
        fix i assume "i < length points"
        then show "\<bar>time_utc ?r - ts\<bar> \<le> \<bar>time_utc (points ! i) - ts\<bar>"
          using left_best [of i] right_best [of i] False by (cases "i < idx") simp_all
      qed
      moreover have "find_nearest_timeline_point points ts = Some ?r"
        using cases mid False by simp
      moreover have "?r \<in> set points" using mid by simp
      ultimately show ?thesis by (simp add: all_idx)
    qed
  qed
qed

lemma nearest_none_iff: "(find_nearest_timeline_point points ts = None) = (points = [])"
  by (simp add: find_nearest_cases Let_def)

lemma nearest_before_all:
  assumes srt: "sorted (map time_utc points)" and ne: "points \<noteq> []"
    and before: "\<forall>q\<in>set points. ts < time_utc q"
  shows "find_nearest_timeline_point points ts = Some (hd points)"
proof -
  define idx where "idx = bisect_left (map time_utc points) ts"
  have "idx = 0"
  proof (rule ccontr)
    assume "idx \<noteq> 0"
    then have "map time_utc points ! 0 < ts"
      using bisect_left_sorted(2) [OF srt, of ts] by (simp add: idx_def)
    moreover have "points ! 0 \<in> set points" using ne by simp
    ultimately show False using before ne by fastforce
  qed
  then show ?thesis using ne by (simp add: find_nearest_cases Let_def idx_def hd_conv_nth)
qed

lemma nearest_after_all:
  assumes srt: "sorted (map time_utc points)" and ne: "points \<noteq> []"
    and after: "\<forall>q\<in>set points. time_utc q < ts"
  shows "find_nearest_timeline_point points ts = Some (last points)"
proof -
  define idx where "idx = bisect_left (map time_utc points) ts"
  have idx_le: "idx \<le> length points"
    using bisect_left_le_length [of "map time_utc points" ts] by (simp add: idx_def)
  have "idx = length points"
  proof (rule ccontr)
    assume "idx \<noteq> length points"
    with idx_le have lt: "idx < length points" by simp
    then have "ts \<le> map time_utc points ! idx"
      using bisect_left_sorted(3) [OF srt, of ts] by (simp add: idx_def)
    moreover have "points ! idx \<in> set points" using lt by simp
    ultimately show False using after lt by fastforce
  qed
  then show ?thesis using ne by (simp add: find_nearest_cases Let_def idx_def last_conv_nth)
qed

lemma nearest_exact:
  assumes srt: "sorted (map time_utc points)" and hit: "q \<in> set points" "time_utc q = ts"
  shows "\<exists>p. find_nearest_timeline_point points ts = Some p \<and> p \<in> set points \<and> time_utc p = ts"
proof -
  from hit have ne: "points \<noteq> []" by auto
  from nearest_is_minimal [OF srt ne, of ts] obtain p where
    p: "find_nearest_timeline_point points ts = Some p" "p \<in> set points"
       "\<forall>q\<in>set points. \<bar>time_utc p - ts\<bar> \<le> \<bar>time_utc q - ts\<bar>" by blast
  from p(3) hit have "\<bar>time_utc p - ts\<bar> \<le> 0" by fastforce
  then have "time_utc p = ts" by simp
  with p show ?thesis by simp
qed

lemma nearest_tie_right:
  assumes srt: "sorted (map time_utc points)" and i: "Suc i < length points"
    and lt: "time_utc (points ! i) < time_utc (points ! Suc i)"
    and tie: "ts - time_utc (points ! i) = time_utc (points ! Suc i) - ts"
  shows "find_nearest_timeline_point points ts = Some (points ! Suc i)"
proof -
  define idx where "idx = bisect_left (map time_utc points) ts"
  from lt tie have between: "time_utc (points ! i) < ts" "ts < time_utc (points ! Suc i)"
    by linarith+
  have "\<not> idx \<le> i"
  proof
    assume "idx \<le> i"
    then have "ts \<le> map time_utc points ! i"
      using bisect_left_sorted(3) [OF srt, of ts] i by (simp add: idx_def)
    with between i show False by simp
  qed
  moreover have "\<not> Suc i < idx"
  proof
    assume "Suc i < idx"
    then have "map time_utc points ! Suc i < ts"
      using bisect_left_sorted(2) [OF srt, of ts] by (simp add: idx_def)
    with between i show False by simp
  qed
  ultimately have idx: "idx = Suc i" by simp
  have "\<not> \<bar>time_utc (points ! i) - ts\<bar> < \<bar>time_utc (points ! Suc i) - ts\<bar>"
    using between tie by simp
  then show ?thesis
    using idx i by (auto simp: find_nearest_cases Let_def idx_def [symmetric])
qed

lemma sorted_abc: "sorted (map time_utc [sample_a, sample_b, sample_c])"
  by (simp add: sample_a_def sample_b_def sample_c_def)

section \<open>Lemmas: binary64 rounding\<close>

lemma pow2_nat_powi: "0 \<le> n \<Longrightarrow> (2::rat) ^ nat n = 2 powi n"
  by (simp add: power_int_def)

lemma ilog2_bounds:
  assumes "0 < q"
  shows "2 powi (ilog2 q) \<le> q" and "q < 2 powi (ilog2 q + 1)"
proof -
  obtain a b where ab: "quotient_of q = (a, b)" by (cases "quotient_of q")
  have b: "0 < b" using quotient_of_denom_pos [OF ab] .
  have q: "q = of_int a / of_int b" using quotient_of_div [OF ab] .
  have a: "0 < a"
  proof (rule ccontr)
    assume "\<not> 0 < a"
    then have "of_int a \<le> (0::rat)" by simp
    then have "of_int a / of_int b \<le> (0::rat)" using b by (simp add: divide_le_0_iff)
    with q assms show False by simp
  qed
  define la where "la = bitlen a"
  define lb where "lb = bitlen b"
  have la: "2 ^ nat (la - 1) \<le> a" "a < 2 ^ nat la"
    using bitlen_bounds [OF a] by (simp_all add: la_def)
  have lb: "2 ^ nat (lb - 1) \<le> b" "b < 2 ^ nat lb"
    using bitlen_bounds [OF b] by (simp_all add: lb_def)
  have la1: "1 \<le> la" using a bitlen_nonneg [of a] bitlen_eq_zero_iff [of a] by (simp add: la_def)
  have lb1: "1 \<le> lb" using b bitlen_nonneg [of b] bitlen_eq_zero_iff [of b] by (simp add: lb_def)
  have ra_lo: "(2::rat) powi (la - 1) \<le> of_int a"
  proof -
    have "(of_int (2 ^ nat (la - 1)) :: rat) \<le> of_int a" using la(1) by (simp only: of_int_le_iff)
    then show ?thesis using la1 by (simp add: pow2_nat_powi)
  qed
  have ra_hi: "of_int a < (2::rat) powi la"
  proof -
    have "(of_int a :: rat) < of_int (2 ^ nat la)" using la(2) by (simp only: of_int_less_iff)
    then show ?thesis using la1 by (simp add: pow2_nat_powi)
  qed
  have rb_lo: "(2::rat) powi (lb - 1) \<le> of_int b"
  proof -
    have "(of_int (2 ^ nat (lb - 1)) :: rat) \<le> of_int b" using lb(1) by (simp only: of_int_le_iff)
    then show ?thesis using lb1 by (simp add: pow2_nat_powi)
  qed
  have rb_hi: "of_int b < (2::rat) powi lb"
  proof -
    have "(of_int b :: rat) < of_int (2 ^ nat lb)" using lb(2) by (simp only: of_int_less_iff)
    then show ?thesis using lb1 by (simp add: pow2_nat_powi)
  qed
  have bpos: "(0::rat) < of_int b" using b by simp
  define k where "k = la - lb"
  have lower: "(2::rat) powi (k - 1) \<le> q"
  proof -
    have "(2::rat) powi (k - 1) * of_int b \<le> 2 powi (k - 1) * 2 powi lb"
      using rb_hi by (intro mult_left_mono) simp_all
    also have "\<dots> = 2 powi (la - 1)"
      by (simp add: k_def power_int_add [symmetric])
    also have "\<dots> \<le> of_int a" by (rule ra_lo)
    finally show ?thesis using bpos by (simp add: q pos_le_divide_eq)
  qed
  have upper: "q < (2::rat) powi (k + 1)"
  proof -
    have "of_int a < (2::rat) powi la" by (rule ra_hi)
    also have "\<dots> = 2 powi (k + 1) * 2 powi (lb - 1)"
      by (simp add: k_def power_int_add [symmetric])
    also have "\<dots> \<le> 2 powi (k + 1) * of_int b"
      using rb_lo by (intro mult_left_mono) simp_all
    finally show ?thesis using bpos by (simp add: q pos_divide_less_eq)
  qed
  have il: "ilog2 q = (if 2 powi k \<le> q then k else k - 1)"
    by (simp add: ilog2_def ab Let_def k_def la_def lb_def)
  show "2 powi (ilog2 q) \<le> q" using lower by (simp add: il)
  show "q < 2 powi (ilog2 q + 1)" using upper by (auto simp: il not_le)
qed

lemma ilog2_less:
  assumes "0 < q" and "q < 2 powi k"
  shows "ilog2 q < k"
proof (rule ccontr)
  assume "\<not> ilog2 q < k"
  then have "k \<le> ilog2 q" by simp
  then have "(2::rat) powi k \<le> 2 powi (ilog2 q)" by (intro power_int_increasing) simp_all
  also have "\<dots> \<le> q" using ilog2_bounds(1) [OF assms(1)] .
  finally show False using assms(2) by simp
qed

lemma ilog2_ge:
  assumes "0 < q" and "2 powi k \<le> q"
  shows "k \<le> ilog2 q"
proof (rule ccontr)
  assume "\<not> k \<le> ilog2 q"
  then have "ilog2 q + 1 \<le> k" by simp
  then have "(2::rat) powi (ilog2 q + 1) \<le> 2 powi k" by (intro power_int_increasing) simp_all
  with ilog2_bounds(2) [OF assms(1)] assms(2) show False by simp
qed

lemma rne_error: "\<bar>of_int (rne y) - y\<bar> \<le> 1 / 2"
proof -
  have "of_int \<lfloor>y\<rfloor> \<le> y" "y < of_int \<lfloor>y\<rfloor> + 1" by linarith+
  then show ?thesis by (auto simp: rne_def Let_def)
qed

lemma rne_of_int: "rne (of_int n) = n"
  by (simp add: rne_def)

lemma rne_nonneg: "0 \<le> y \<Longrightarrow> 0 \<le> rne y"
  by (auto simp: rne_def Let_def)

lemma round64_nonneg: "0 \<le> q \<Longrightarrow> 0 \<le> round64 q"
  by (auto simp: round64_def Let_def intro!: mult_nonneg_nonneg rne_nonneg divide_nonneg_nonneg)

lemma round64_error_exp:
  assumes "q \<noteq> 0"
  shows "\<bar>round64 q - q\<bar> \<le> 2 powi (max (ilog2 \<bar>q\<bar> - 52) (- 1074) - 1)"
proof -
  define e where "e = max (ilog2 \<bar>q\<bar> - 52) (- 1074)"
  define y where "y = q / 2 powi e"
  have p: "(0::rat) < 2 powi e" by simp
  have qy: "q = y * 2 powi e" by (simp add: y_def)
  have "round64 q - q = (of_int (rne y) - y) * 2 powi e"
    using assms by (simp add: round64_def Let_def e_def [symmetric] y_def [symmetric] algebra_simps qy [symmetric])
  then have "\<bar>round64 q - q\<bar> = \<bar>of_int (rne y) - y\<bar> * 2 powi e"
    by (simp add: abs_mult)
  also have "\<dots> \<le> (1 / 2) * 2 powi e"
    using rne_error [of y] by (intro mult_right_mono) simp_all
  also have "\<dots> = 2 powi (e - 1)"
    by (simp add: power_int_diff)
  finally show ?thesis by (simp add: e_def)
qed

lemma round64_error:
  assumes "\<bar>q\<bar> < 2 powi k" and "- 1021 \<le> k"
  shows "\<bar>round64 q - q\<bar> \<le> 2 powi (k - 54)"
proof (cases "q = 0")
  case True
  then show ?thesis by (simp add: round64_def)
next
  case False
  then have "0 < \<bar>q\<bar>" by simp
  from ilog2_less [OF this assms(1)] have "ilog2 \<bar>q\<bar> < k" .
  with assms(2) have "max (ilog2 \<bar>q\<bar> - 52) (- 1074) - 1 \<le> k - 54" by simp
  then have "(2::rat) powi (max (ilog2 \<bar>q\<bar> - 52) (- 1074) - 1) \<le> 2 powi (k - 54)"
    by (intro power_int_increasing) simp_all
  with round64_error_exp [OF False] show ?thesis by simp
qed

lemma round64_of_int:
  assumes "\<bar>n\<bar> < 2 ^ 53"
  shows "round64 (of_int n) = of_int n"
proof (cases "n = 0")
  case True
  then show ?thesis by (simp add: round64_def)
next
  case False
  define q :: rat where "q = of_int n"
  have q0: "q \<noteq> 0" using False by (simp add: q_def)
  have qpos: "0 < \<bar>q\<bar>" using q0 by simp
  have "1 \<le> \<bar>n\<bar>" using False by simp
  then have "(1::rat) \<le> of_int \<bar>n\<bar>" by (simp only: of_int_1_le_iff)
  then have ge1: "2 powi 0 \<le> \<bar>q\<bar>" by (simp add: q_def)
  have "(of_int \<bar>n\<bar> :: rat) < of_int (2 ^ 53)" using assms by (simp only: of_int_less_iff)
  then have lt: "\<bar>q\<bar> < 2 powi 53" by (simp add: q_def)
  define l where "l = ilog2 \<bar>q\<bar>"
  have l: "0 \<le> l" "l < 53"
    using ilog2_ge [OF qpos ge1] ilog2_less [OF qpos lt] by (simp_all add: l_def)
  define m where "m = nat (52 - l)"
  have e: "max (l - 52) (- 1074) = - int m" using l by (simp add: m_def)
  have pw: "(2::rat) powi (- int m) = 1 / 2 ^ m"
    by (simp add: power_int_minus field_simps)
  have "q / 2 powi (- int m) = of_int (n * 2 ^ m)"
    by (simp add: pw q_def)
  then have "rne (q / 2 powi (- int m)) = n * 2 ^ m"
    by (simp only: rne_of_int)
  then have "round64 q = of_int (n * 2 ^ m) * 2 powi (- int m)"
    using q0 by (simp add: round64_def Let_def l_def [symmetric] e)
  also have "\<dots> = q" by (simp add: pw q_def)
  finally show ?thesis by (simp add: q_def)
qed

section \<open>Lemmas: offset formatting\<close>

lemma fmt_02d_two_digits:
  assumes "n < 100"
  shows "fmt_02d n = [digit_char (n div 10), digit_char (n mod 10)]"
proof (cases "n < 10")
  case True
  then show ?thesis
    by (simp add: fmt_02d_def dec_digits.simps [of n] digit_char_def)
next
  case False
  with assms have "n div 10 < 10" by simp
  with False show ?thesis
    by (simp add: fmt_02d_def dec_digits.simps [of n] dec_digits.simps [of "n div 10"])
qed

lemma whole_minutes_exact:
  assumes "\<bar>m\<bar> < 6000"
  shows "int_of_float (round64 (total_seconds (60000000 * m) / 60)) = m"
proof -
  have "of_int (60000000 * m) / (1000000::rat) = of_int (60 * m)" by simp
  moreover have "\<bar>60 * m\<bar> < 2 ^ 53" using assms by simp
  ultimately have "total_seconds (60000000 * m) = of_int (60 * m)"
    unfolding total_seconds_def by (simp only: round64_of_int)
  then have "total_seconds (60000000 * m) / 60 = of_int m" by simp
  moreover have "\<bar>m\<bar> < 2 ^ 53" using assms by simp
  ultimately have "round64 (total_seconds (60000000 * m) / 60) = of_int m"
    by (simp only: round64_of_int)
  then show ?thesis by (simp add: int_of_float_def)
qed

section \<open>Lemmas: the index build\<close>

lemma add_point_from_path_entry_append:
  "add_point_from_path_entry float_of isoparse tf_points entry =
     (case add_point_from_path_entry float_of isoparse [] entry of
        Inl e \<Rightarrow> Inl e
      | Inr ps \<Rightarrow> Inr (tf_points @ ps))"
  by (simp add: add_point_from_path_entry_def split: sum.splits prod.splits)

lemma add_path_entries_append:
  "add_path_entries float_of isoparse tf_points entries =
     (fst (add_path_entries float_of isoparse [] entries),
      tf_points @ snd (add_path_entries float_of isoparse [] entries))"
proof (induction entries arbitrary: tf_points)
  case Nil
  show ?case by simp
next
  case (Cons entry entries)
  show ?case
  proof (cases "add_point_from_path_entry float_of isoparse [] entry")
    case (Inl e)
    then have "add_point_from_path_entry float_of isoparse tf_points entry = Inl e"
      by (subst add_point_from_path_entry_append) simp
    with Inl show ?thesis by simp
  next
    case (Inr ps)
    then have "add_point_from_path_entry float_of isoparse tf_points entry = Inr (tf_points @ ps)"
      by (subst add_point_from_path_entry_append) simp
    with Inr show ?thesis
      using Cons.IH [of "tf_points @ ps"] Cons.IH [of ps] by simp
  qed
qed

lemma add_point_from_visit_append:
  "add_point_from_visit float_of isoparse tf_points seg =
     (case add_point_from_visit float_of isoparse [] seg of
        Inl e \<Rightarrow> Inl e
      | Inr ps \<Rightarrow> Inr (tf_points @ ps))"
  by (simp add: add_point_from_visit_def Let_def split: sum.splits prod.splits)

lemma process_segment_append:
  "process_segment float_of isoparse tf_points seg =
     tf_points @ process_segment float_of isoparse [] seg"
proof -
  have path: "\<And>entries. snd (add_path_entries float_of isoparse tf_points entries) =
      tf_points @ snd (add_path_entries float_of isoparse [] entries)"
    by (subst add_path_entries_append) simp
  show ?thesis
  proof (cases "add_point_from_visit float_of isoparse [] seg")
    case (Inl e)
    then have "add_point_from_visit float_of isoparse tf_points seg = Inl e"
      by (subst add_point_from_visit_append) simp
    with Inl show ?thesis
      unfolding process_segment_def by (simp add: path split: sum.splits bool.splits)
  next
    case (Inr ps)
    then have "add_point_from_visit float_of isoparse tf_points seg = Inr (tf_points @ ps)"
      by (subst add_point_from_visit_append) simp
    with Inr show ?thesis
      unfolding process_segment_def by (simp add: path split: sum.splits bool.splits)
  qed
qed

lemma foldl_process_segment:
  "foldl (process_segment float_of isoparse) tf_points segments =
     tf_points @ concat (map (process_segment float_of isoparse []) segments)"
proof (induction segments arbitrary: tf_points)
  case Nil
  show ?case by simp
next
  case (Cons seg segments)
  show ?case
    using Cons.IH [of "process_segment float_of isoparse tf_points seg"]
      process_segment_append [of float_of isoparse tf_points seg]
    by simp
qed

lemma load_timeline_points_concat:
  "load_timeline_points float_of isoparse segments =
     sort_key time_utc (concat (map (process_segment float_of isoparse []) segments))"
  by (simp add: load_timeline_points_def foldl_process_segment)

lemma load_timeline_points_sorted:
  "sorted (map time_utc (load_timeline_points float_of isoparse segments))"
  by (simp add: load_timeline_points_def)

lemma divide_and_round_2_error: "\<bar>2 * divide_and_round d 2 - d\<bar> \<le> 1"
proof -
  have "d mod 2 = 0 \<or> d mod 2 = 1" by presburger
  then show ?thesis
    by (auto simp: divide_and_round_def Let_def) presburger+
qed

lemma divide_and_round_2_even: "even d \<Longrightarrow> 2 * divide_and_round d 2 = d"
  by (auto simp: divide_and_round_def Let_def)

lemma process_visit_segment:
  assumes seg: "seg = JObj kvs" and nopath: "''timelinePath'' \<notin> set (map fst kvs)"
    and ll: "visit_latlng float_of seg = Inr (la, lo)"
    and st: "map_of kvs ''startTime'' = Some (JStr s1)" "isoparse s1 = Some start_utc"
    and en: "map_of kvs ''endTime'' = Some (JStr s2)" "isoparse s2 = Some end_utc"
  shows "process_segment float_of isoparse tf_points seg =
           tf_points @ [\<lparr>time_utc = start_utc + divide_and_round (end_utc - start_utc) 2,
                         lat = la, lon = lo\<rparr>]"
proof -
  have "py_item seg ''visit'' \<noteq> Inl KeyError \<and> py_item seg ''visit'' \<noteq> Inl TypeError"
    using ll by (auto simp: visit_latlng_def split: sum.splits)
  then have "map_of kvs ''visit'' \<noteq> None"
    by (auto simp: py_item_def seg split: option.splits)
  then have visit: "''visit'' \<in> set (map fst kvs)"
    by (simp add: map_of_eq_None_iff)
  have "add_point_from_visit float_of isoparse tf_points seg =
          Inr (tf_points @ [\<lparr>time_utc = start_utc + divide_and_round (end_utc - start_utc) 2,
                         lat = la, lon = lo\<rparr>])"
    using ll st en by (simp add: add_point_from_visit_def py_item_def parse_time_def seg Let_def)
  then show ?thesis
    using nopath visit by (simp add: process_segment_def py_in_def seg)
qed

lemma add_path_entries_prefix:
  assumes "list_all2 (\<lambda>e p. add_point_from_path_entry float_of isoparse [] e = Inr [p]) pre ps"
  shows "add_path_entries float_of isoparse tf_points (pre @ rest) =
           add_path_entries float_of isoparse (tf_points @ ps) rest"
  using assms
proof (induction pre ps arbitrary: tf_points rule: list_all2_induct)
  case Nil
  show ?case by simp
next
  case (Cons e pre p ps)
  have "add_point_from_path_entry float_of isoparse tf_points e = Inr (tf_points @ [p])"
    using Cons.hyps(1) by (subst add_point_from_path_entry_append) simp
  then show ?case using Cons.IH [of "tf_points @ [p]"] by simp
qed

lemma process_path_segment_malformed:
  assumes seg: "seg = JObj kvs"
    and path: "map_of kvs ''timelinePath'' = Some (JArr (pre @ bad # post))"
    and pre: "list_all2 (\<lambda>e p. add_point_from_path_entry float_of isoparse [] e = Inr [p]) pre ps"
    and bad: "py_item bad ''point'' = Inr (JStr s)" "parse_latlng float_of (JStr s) = Inl err"
  shows "process_segment float_of isoparse tf_points seg = tf_points @ ps"
proof -
  have key: "''timelinePath'' \<in> set (map fst kvs)"
    using path by (metis map_of_eq_None_iff option.distinct(1) set_map)
  have "add_point_from_path_entry float_of isoparse (tf_points @ ps) bad = Inl err"
    using bad by (simp add: add_point_from_path_entry_def)
  then have "add_path_entries float_of isoparse tf_points (pre @ bad # post) = (Some err, tf_points @ ps)"
    by (simp add: add_path_entries_prefix [OF pre])
  then show ?thesis
    using key path by (simp add: process_segment_def py_in_def py_get_def py_iter_def seg)
qed

section \<open>Lemmas: the batch driver\<close>

lemma find_nearest_in_set:
  assumes "find_nearest_timeline_point points ts = Some p"
  shows "p \<in> set points"
proof -
  have le: "bisect_left (map time_utc points) ts \<le> length points"
    using bisect_left_le_length [of "map time_utc points" ts] by simp
  from assms have ne: "points \<noteq> []" by (auto simp: find_nearest_cases Let_def)
  show ?thesis
    using assms le ne
    by (auto simp: find_nearest_cases Let_def split: if_splits)
qed

lemma index_skip [simp]: "index (skip st) = index st"
  by (simp add: skip_def)

lemma files_skip [simp]: "files (skip st) = files st"
  by (simp add: skip_def)

lemma process_photo_index:
  "index (process_photo c max_gap apply backup overwrite_gps st photo) = index st"
  by (simp add: process_photo_def Let_def
      split: option.splits exif_value.splits prod.splits outcome.splits)

lemma foldl_process_photo_index:
  "index (foldl (process_photo c max_gap apply backup overwrite_gps) st photo_paths) = index st"
  by (induction photo_paths arbitrary: st) (simp_all add: process_photo_index)

lemma photo_loop_index:
  "index (photo_loop c max_gap apply backup overwrite_gps fs points photo_paths) = points"
  by (simp add: photo_loop_def foldl_process_photo_index)

lemma process_photo_no_close_match:
  assumes load: "piexif_load c (files st) photo = Some exif_dict"
    and orig: "get_tag exif_dict ''Exif'' DateTimeOriginal = Some (Bytes b)"
    and inst: "photo_instant c b = Some t"
    and far: "\<forall>p\<in>set (index st). max_gap < \<bar>time_utc p - t\<bar>"
  shows "process_photo c max_gap apply backup overwrite_gps st photo = skip st"
proof -
  from orig obtain exif_ifd where
    ifd: "map_of exif_dict ''Exif'' = Some exif_ifd" "map_of exif_ifd DateTimeOriginal = Some (Bytes b)"
    by (auto simp: get_tag_def split: option.splits)
  show ?thesis
  proof (cases "b = []")
    case True
    with load ifd show ?thesis by (simp add: process_photo_def Let_def)
  next
    case False
    show ?thesis
    proof (cases "find_nearest_timeline_point (index st) t")
      case None
      with load ifd inst False show ?thesis by (simp add: process_photo_def Let_def)
    next
      case (Some tl_point)
      then have "tl_point \<in> set (index st)" by (rule find_nearest_in_set)
      with far have "max_gap < \<bar>time_utc tl_point - t\<bar>" by blast
      with load ifd inst False Some show ?thesis by (simp add: process_photo_def Let_def)
    qed
  qed
qed

section \<open>Lemmas: rewriting a photograph\<close>

lemma has_gps_get_tag:
  "has_gps exif_dict =
     (truthy (get_tag exif_dict ''GPS'' GPSLatitude) \<and> truthy (get_tag exif_dict ''GPS'' GPSLongitude))"
  by (simp add: has_gps_def get_tag_def Let_def split: option.splits)

lemma update_photo_overwrite_irrelevant:
  assumes "piexif_load c fs filepath = Some exif_dict" and "\<not> has_gps exif_dict"
  shows "update_photo c fs filepath tl_point apply backup False =
         update_photo c fs filepath tl_point apply backup True"
  using assms by (simp add: update_photo_def)

lemma update_photo_already_tagged:
  assumes "piexif_load c fs filepath = Some exif_dict" and "has_gps exif_dict"
  shows "update_photo c fs filepath tl_point apply backup False = (Returned False, fs)"
  using assms by (simp add: update_photo_def)

lemma updated_exif_fields:
  assumes exif: "map_of exif_dict ''Exif'' = Some g" and zeroth: "map_of exif_dict ''0th'' = Some g0"
    and la: "deg_to_dms_rational (lat tl_point) = Inr dla"
    and lo: "deg_to_dms_rational (lon tl_point) = Inr dlo"
  shows "\<exists>d'. updated_exif exif_dict dt_bytes offset_str tl_point = Inr d'
     \<and> get_tag d' ''Exif'' DateTimeOriginal = Some (Bytes dt_bytes)
     \<and> get_tag d' ''Exif'' DateTimeDigitized = Some (Bytes dt_bytes)
     \<and> get_tag d' ''0th'' DateTime = Some (Bytes dt_bytes)
     \<and> get_tag d' ''Exif'' OffsetTime = Some (Bytes offset_str)
     \<and> get_tag d' ''Exif'' OffsetTimeOriginal = Some (Bytes offset_str)
     \<and> get_tag d' ''Exif'' OffsetTimeDigitized = Some (Bytes offset_str)
     \<and> get_tag d' ''GPS'' GPSLatitudeRef = Some (Bytes (if float_ge_0 (lat tl_point) then ''N'' else ''S''))
     \<and> get_tag d' ''GPS'' GPSLatitude = Some (Rationals dla)
     \<and> get_tag d' ''GPS'' GPSLongitudeRef = Some (Bytes (if float_ge_0 (lon tl_point) then ''E'' else ''W''))
     \<and> get_tag d' ''GPS'' GPSLongitude = Some (Rationals dlo)"
  using assms
  by (simp add: updated_exif_def set_tag_def write_gps_def get_tag_def Let_def update_conv'
      DateTime_def DateTimeOriginal_def DateTimeDigitized_def OffsetTime_def
      OffsetTimeOriginal_def OffsetTimeDigitized_def GPSLatitudeRef_def GPSLatitude_def
      GPSLongitudeRef_def GPSLongitude_def)

section \<open>Lemmas: the concrete runs\<close>

lemma demo_instant_june_1: "photo_instant demo ''2024:06:01 10:30:00'' = Some 1717263000000000"
  by code_simp

lemma nearest_single: "find_nearest_timeline_point [p] ts = Some p"
proof -
  have "bisect_left [time_utc p] ts \<le> 1"
    using bisect_left_le_length [of "[time_utc p]" ts] by simp
  then have "bisect_left [time_utc p] ts = 0 \<or> bisect_left [time_utc p] ts = 1"
    by linarith
  then show ?thesis by (auto simp: find_nearest_cases Let_def)
qed

lemma has_gps_photo_tagged: "has_gps photo_tagged"
  by (simp add: has_gps_def photo_tagged_def GPSLatitude_def GPSLongitude_def
      GPSLatitudeRef_def GPSLongitudeRef_def)

lemma not_has_gps_photo_latitude_only: "\<not> has_gps photo_latitude_only"
  by (simp add: has_gps_def photo_latitude_only_def GPSLatitude_def GPSLongitude_def
      GPSLatitudeRef_def GPSLongitudeRef_def)

lemma demo_local_june_2: "fmt_local (1717263000000000 + 32400000000) = ''2024:06:02 02:30:00''"
  by code_simp

lemma demo_offset_9h: "format_tz_offset 32400000000 = ''+09:00''"
  by code_simp

lemma dms_35: "deg_to_dms_rational (Finite 35) = Inr [(35, 1), (0, 1), (0, 100)]"
  by code_simp

lemma dms_139: "deg_to_dms_rational (Finite 139) = Inr [(139, 1), (0, 1), (0, 100)]"
  by code_simp

lemma updated_exif_latitude_only:
  "updated_exif photo_latitude_only ''2024:06:02 02:30:00'' ''+09:00'' demo_sample =
     Inr [(''0th'', [(DateTime, Bytes ''2024:06:02 02:30:00'')]),
          (''Exif'', [(DateTimeOriginal, Bytes ''2024:06:02 02:30:00''),
                      (DateTimeDigitized, Bytes ''2024:06:02 02:30:00''),
                      (OffsetTime, Bytes ''+09:00''),
                      (OffsetTimeOriginal, Bytes ''+09:00''),
                      (OffsetTimeDigitized, Bytes ''+09:00'')]),
          (''GPS'', [(GPSLatitudeRef, Bytes ''N''),
                     (GPSLatitude, Rationals [(35, 1), (0, 1), (0, 100)]),
                     (GPSLongitudeRef, Bytes ''E''),
                     (GPSLongitude, Rationals [(139, 1), (0, 1), (0, 100)])])]"
  by (simp add: updated_exif_def set_tag_def write_gps_def Let_def photo_latitude_only_def
      demo_sample_def dms_35 dms_139
      DateTime_def DateTimeOriginal_def DateTimeDigitized_def OffsetTime_def
      OffsetTimeOriginal_def OffsetTimeDigitized_def GPSLatitudeRef_def GPSLatitude_def
      GPSLongitudeRef_def GPSLongitude_def)

lemma update_photo_latitude_only:
  "update_photo demo demo_files ''c.jpg'' demo_sample True False True =
     (Returned True, AList.update ''c.jpg''
        [(''0th'', [(DateTime, Bytes ''2024:06:02 02:30:00'')]),
          (''Exif'', [(DateTimeOriginal, Bytes ''2024:06:02 02:30:00''),
                      (DateTimeDigitized, Bytes ''2024:06:02 02:30:00''),
                      (OffsetTime, Bytes ''+09:00''),
                      (OffsetTimeOriginal, Bytes ''+09:00''),
                      (OffsetTimeDigitized, Bytes ''+09:00'')]),
          (''GPS'', [(GPSLatitudeRef, Bytes ''N''),
                     (GPSLatitude, Rationals [(35, 1), (0, 1), (0, 100)]),
                     (GPSLongitudeRef, Bytes ''E''),
                     (GPSLongitude, Rationals [(139, 1), (0, 1), (0, 100)])])] demo_files)"
proof -
  have load: "piexif_load demo demo_files ''c.jpg'' = Some photo_latitude_only"
    by (simp add: demo_def demo_files_def)
  have exif: "map_of photo_latitude_only ''Exif'' = Some [(DateTimeOriginal, Bytes ''2024:06:01 10:30:00'')]"
    by (simp add: photo_latitude_only_def)
  have tz: "timezone_at demo (lat demo_sample) (lon demo_sample) = Some (Some ''Asia/Tokyo'')"
    by (simp add: demo_def demo_timezone_at_def demo_sample_def)
  have lt: "local_time demo ''Asia/Tokyo'' 1717263000000000 =
      Some (''2024:06:02 02:30:00'', Some 32400000000)"
    using demo_local_june_2 by (simp add: demo_def demo_local_time_def)
  have ins: "piexif_insert demo fs path d = (True, AList.update path d fs)" for fs path d
    by (simp add: demo_def)
  show ?thesis
    by (simp add: update_photo_def load exif demo_instant_june_1 tz lt demo_offset_9h
        updated_exif_latitude_only ins)
qed

section \<open>Lemmas: GPS encoding\<close>

lemma int_of_float_nonneg: "0 \<le> y \<Longrightarrow> int_of_float y = \<lfloor>y\<rfloor>"
  by (simp add: int_of_float_def)

lemma round64_error_unit:
  assumes "0 \<le> q" and "q < 1"
  shows "\<bar>round64 q - q\<bar> \<le> 1 / 2 ^ 54"
proof -
  have "\<bar>q\<bar> < 2 powi 0" using assms by simp
  from round64_error [OF this] have "\<bar>round64 q - q\<bar> \<le> 2 powi (0 - 54)" by simp
  then show ?thesis by (simp add: power_int_minus_divide)
qed

lemma round64_error_64:
  assumes "0 \<le> q" and "q < 64"
  shows "\<bar>round64 q - q\<bar> \<le> 1 / 2 ^ 48"
proof -
  have "\<bar>q\<bar> < 2 powi 6" using assms by simp
  from round64_error [OF this] have "\<bar>round64 q - q\<bar> \<le> 2 powi (6 - 54)" by simp
  then show ?thesis by (simp add: power_int_minus_divide)
qed

lemma round64_error_8192:
  assumes "0 \<le> q" and "q < 8192"
  shows "\<bar>round64 q - q\<bar> \<le> 1 / 2 ^ 41"
proof -
  have "\<bar>q\<bar> < 2 powi 13" using assms by simp
  from round64_error [OF this] have "\<bar>round64 q - q\<bar> \<le> 2 powi (13 - 54)" by simp
  then show ?thesis by (simp add: power_int_minus_divide)
qed

lemma dms_encode_error:
  fixes a :: rat
  assumes a: "0 \<le> a"
  defines "d \<equiv> \<lfloor>a\<rfloor>"
  defines "mf \<equiv> round64 (round64 (a - of_int d) * 60)"
  defines "m \<equiv> \<lfloor>mf\<rfloor>"
  defines "s \<equiv> round64 (round64 (mf - of_int m) * 60)"
  defines "c \<equiv> round64 (s * 100)"
  shows "0 \<le> mf" and "0 \<le> s" and "0 \<le> c"
    and "\<bar>a - (of_int d + of_int m / 60 + (of_int \<lfloor>c\<rfloor> / 100) / 3600)\<bar>
           < 1 / 360000 + 1 / (360000 * 2 ^ 34)"
proof -
  define f0 where "f0 = a - of_int d"
  define f where "f = round64 f0"
  define g0 where "g0 = mf - of_int m"
  define g where "g = round64 g0"
  have f0: "0 \<le> f0" "f0 < 1" unfolding f0_def d_def by linarith+
  have e1: "\<bar>f - f0\<bar> \<le> 1 / 2 ^ 54" unfolding f_def using f0 by (rule round64_error_unit)
  have f: "0 \<le> f" unfolding f_def using f0(1) by (rule round64_nonneg)
  have "f \<le> f0 + 1 / 2 ^ 54" using e1 by linarith
  then have "f < 1 + 1 / 2 ^ 54" using f0 by linarith
  then have "f < 16 / 15" by simp
  then have f60: "0 \<le> f * 60" "f * 60 < 64" using f by simp_all
  have mf_eq: "mf = round64 (f * 60)" by (simp add: mf_def f_def f0_def)
  have e2: "\<bar>mf - f * 60\<bar> \<le> 1 / 2 ^ 48" unfolding mf_eq using f60 by (rule round64_error_64)
  show mf: "0 \<le> mf" unfolding mf_eq using f60(1) by (rule round64_nonneg)
  have g0: "0 \<le> g0" "g0 < 1" unfolding g0_def m_def by linarith+
  have e3: "\<bar>g - g0\<bar> \<le> 1 / 2 ^ 54" unfolding g_def using g0 by (rule round64_error_unit)
  have g: "0 \<le> g" unfolding g_def using g0(1) by (rule round64_nonneg)
  have "g \<le> g0 + 1 / 2 ^ 54" using e3 by linarith
  then have gub: "g < 1 + 1 / 2 ^ 54" using g0 by linarith
  then have "g < 16 / 15" by simp
  then have g60: "0 \<le> g * 60" "g * 60 < 64" using g by simp_all
  have s_eq: "s = round64 (g * 60)" by (simp add: s_def g_def g0_def)
  have e4: "\<bar>s - g * 60\<bar> \<le> 1 / 2 ^ 48" unfolding s_eq using g60 by (rule round64_error_64)
  show s: "0 \<le> s" unfolding s_eq using g60(1) by (rule round64_nonneg)
  have "s \<le> g * 60 + 1 / 2 ^ 48" using e4 by linarith
  moreover have "g * 60 < 60 + 60 / 2 ^ 54" using gub by simp
  ultimately have "s < 60 + 60 / 2 ^ 54 + 1 / 2 ^ 48" by linarith
  then have s61: "s < 61" by simp
  have s100: "0 \<le> s * 100" "s * 100 < 8192" using s s61 by simp_all
  have e5: "\<bar>c - s * 100\<bar> \<le> 1 / 2 ^ 41" unfolding c_def using s100 by (rule round64_error_8192)
  show c: "0 \<le> c" unfolding c_def using s100(1) by (rule round64_nonneg)
  have n: "of_int \<lfloor>c\<rfloor> \<le> c" "c < of_int \<lfloor>c\<rfloor> + 1" by linarith+
  have eq: "a - (of_int d + of_int m / 60 + (of_int \<lfloor>c\<rfloor> / 100) / 3600)
      = (360000 * f0 - 6000 * of_int m - of_int \<lfloor>c\<rfloor>) / 360000"
    by (simp add: f0_def field_simps)
  have bound: "\<bar>360000 * f0 - 6000 * of_int m - of_int \<lfloor>c\<rfloor>\<bar> < 1 + 1 / 2 ^ 34"
  proof -
    define E where "E = 360000 * (f - f0) + 6000 * (mf - f * 60) + 6000 * (g - g0)
      + 100 * (s - g * 60) + (c - s * 100)"
    have id: "360000 * f0 - 6000 * of_int m - of_int \<lfloor>c\<rfloor> = (c - of_int \<lfloor>c\<rfloor>) - E"
      by (simp add: E_def g0_def algebra_simps)
    define u :: rat where "u = 1 / 2 ^ 54"
    have u: "0 < u" by (simp add: u_def)
    have conv: "1 / 2 ^ 48 = 64 * u" "1 / 2 ^ 41 = 8192 * u" "1 / 2 ^ 34 = 1048576 * u"
      "1 / 2 ^ 54 = u" by (simp_all add: u_def)
    have b1: "- u \<le> f - f0" "f - f0 \<le> u" using e1 unfolding conv by linarith+
    have b2: "- (64 * u) \<le> mf - f * 60" "mf - f * 60 \<le> 64 * u"
      using e2 unfolding conv by linarith+
    have b3: "- u \<le> g - g0" "g - g0 \<le> u" using e3 unfolding conv by linarith+
    have b4: "- (64 * u) \<le> s - g * 60" "s - g * 60 \<le> 64 * u"
      using e4 unfolding conv by linarith+
    have b5: "- (8192 * u) \<le> c - s * 100" "c - s * 100 \<le> 8192 * u"
      using e5 unfolding conv by linarith+
    define x1 x2 x3 x4 x5 where "x1 = f - f0" and "x2 = mf - f * 60" and "x3 = g - g0"
      and "x4 = s - g * 60" and "x5 = c - s * 100"
    have E: "E = 360000 * x1 + 6000 * x2 + 6000 * x3 + 100 * x4 + x5"
      by (simp add: E_def x1_def x2_def x3_def x4_def x5_def)
    have lo: "- (764592 * u) \<le> E"
      using b1(1) b2(1) b3(1) b4(1) b5(1)
      unfolding E x1_def [symmetric] x2_def [symmetric] x3_def [symmetric] x4_def [symmetric]
        x5_def [symmetric]
      by linarith
    have hi: "E \<le> 764592 * u"
      using b1(2) b2(2) b3(2) b4(2) b5(2)
      unfolding E x1_def [symmetric] x2_def [symmetric] x3_def [symmetric] x4_def [symmetric]
        x5_def [symmetric]
      by linarith
    have "- (1048576 * u) < E" "E < 1048576 * u"
      using lo hi u by linarith+
    then have "\<bar>E\<bar> < 1 / 2 ^ 34" unfolding conv by linarith
    then show ?thesis using n unfolding id by linarith
  qed
  have "\<bar>a - (of_int d + of_int m / 60 + (of_int \<lfloor>c\<rfloor> / 100) / 3600)\<bar>
      = \<bar>360000 * f0 - 6000 * of_int m - of_int \<lfloor>c\<rfloor>\<bar> / 360000"
    unfolding eq by simp
  also have "\<dots> < (1 + 1 / 2 ^ 34) / 360000"
    using bound by (rule divide_strict_right_mono) simp
  also have "\<dots> = 1 / 360000 + 1 / (360000 * 2 ^ 34)"
    by simp
  finally show "\<bar>a - (of_int d + of_int m / 60 + (of_int \<lfloor>c\<rfloor> / 100) / 3600)\<bar>
           < 1 / 360000 + 1 / (360000 * 2 ^ 34)" .
qed

lemma deg_to_dms_rational_finite:
  "deg_to_dms_rational (Finite x) =
     Inr [(\<lfloor>\<bar>x\<bar>\<rfloor>, 1),
          (\<lfloor>round64 (round64 (\<bar>x\<bar> - of_int \<lfloor>\<bar>x\<bar>\<rfloor>) * 60)\<rfloor>, 1),
          (\<lfloor>round64 (round64 (round64 (round64 (round64 (\<bar>x\<bar> - of_int \<lfloor>\<bar>x\<bar>\<rfloor>) * 60)
               - of_int \<lfloor>round64 (round64 (\<bar>x\<bar> - of_int \<lfloor>\<bar>x\<bar>\<rfloor>) * 60)\<rfloor>) * 60) * 100)\<rfloor>, 100)]"
proof -
  have a: "0 \<le> \<bar>x\<bar>" by simp
  note nn = dms_encode_error(1-3) [OF a]
  show ?thesis
    unfolding deg_to_dms_rational_def Let_def
    by (simp add: int_of_float_nonneg [OF a] int_of_float_nonneg [OF nn(1)]
        int_of_float_nonneg [OF nn(3)])
qed

lemma dms_encode_decode_abs:
  assumes "deg_to_dms_rational (Finite x) = Inr dms"
  shows "\<bar>\<bar>x\<bar> - spec_dms_decode ''N'' dms\<bar> < 1 / 360000 + 1 / (360000 * 2 ^ 34)"
proof -
  have a: "0 \<le> \<bar>x\<bar>" by simp
  from assms have dms: "dms = [(\<lfloor>\<bar>x\<bar>\<rfloor>, 1),
          (\<lfloor>round64 (round64 (\<bar>x\<bar> - of_int \<lfloor>\<bar>x\<bar>\<rfloor>) * 60)\<rfloor>, 1),
          (\<lfloor>round64 (round64 (round64 (round64 (round64 (\<bar>x\<bar> - of_int \<lfloor>\<bar>x\<bar>\<rfloor>) * 60)
               - of_int \<lfloor>round64 (round64 (\<bar>x\<bar> - of_int \<lfloor>\<bar>x\<bar>\<rfloor>) * 60)\<rfloor>) * 60) * 100)\<rfloor>, 100)]"
    by (simp add: deg_to_dms_rational_finite)
  show ?thesis
    using dms_encode_error(4) [OF a]
    by (simp add: dms spec_dms_decode_def)
qed

lemma spec_dms_decode_south: "spec_dms_decode ''S'' dms = - spec_dms_decode ''N'' dms"
  by (simp add: spec_dms_decode_def split: list.splits prod.splits)

lemma spec_dms_decode_east: "spec_dms_decode ''E'' dms = spec_dms_decode ''N'' dms"
  by (simp add: spec_dms_decode_def split: list.splits prod.splits)

lemma spec_dms_decode_west: "spec_dms_decode ''W'' dms = - spec_dms_decode ''N'' dms"
  by (simp add: spec_dms_decode_def split: list.splits prod.splits)

section \<open>Properties\<close>

text \<open>
  C1. On a timeline index sorted ascending by instant, the lookup returns none exactly when
  the index is empty; on a non-empty index it returns a sample of the index whose distance
  to the query instant is minimal among all samples; a query before all samples returns
  the first sample, a query after all samples the last one, and a query equal to the
  instant of some sample returns a sample with that instant.
\<close>

theorem nearest_sample_minimal:
  assumes "sorted (map time_utc points)"
  shows "((find_nearest_timeline_point points ts = None) = (points = []))
       \<and> (points \<noteq> [] \<longrightarrow>
            (\<exists>p. find_nearest_timeline_point points ts = Some p \<and> p \<in> set points
               \<and> (\<forall>q\<in>set points. \<bar>time_utc p - ts\<bar> \<le> \<bar>time_utc q - ts\<bar>)))
       \<and> (points \<noteq> [] \<and> (\<forall>q\<in>set points. ts < time_utc q) \<longrightarrow>
            find_nearest_timeline_point points ts = Some (hd points))
       \<and> (points \<noteq> [] \<and> (\<forall>q\<in>set points. time_utc q < ts) \<longrightarrow>
            find_nearest_timeline_point points ts = Some (last points))
       \<and> ((\<exists>q\<in>set points. time_utc q = ts) \<longrightarrow>
            (\<exists>p. find_nearest_timeline_point points ts = Some p \<and> p \<in> set points
               \<and> time_utc p = ts))"
proof (intro conjI impI)
  show "(find_nearest_timeline_point points ts = None) = (points = [])"
    by (rule nearest_none_iff)
next
  assume "points \<noteq> []"
  then show "\<exists>p. find_nearest_timeline_point points ts = Some p \<and> p \<in> set points
               \<and> (\<forall>q\<in>set points. \<bar>time_utc p - ts\<bar> \<le> \<bar>time_utc q - ts\<bar>)"
    using nearest_is_minimal [OF assms] by blast
next
  assume "points \<noteq> [] \<and> (\<forall>q\<in>set points. ts < time_utc q)"
  then show "find_nearest_timeline_point points ts = Some (hd points)"
    using nearest_before_all [OF assms] by blast
next
  assume "points \<noteq> [] \<and> (\<forall>q\<in>set points. time_utc q < ts)"
  then show "find_nearest_timeline_point points ts = Some (last points)"
    using nearest_after_all [OF assms] by blast
next
  assume "\<exists>q\<in>set points. time_utc q = ts"
  then show "\<exists>p. find_nearest_timeline_point points ts = Some p \<and> p \<in> set points
               \<and> time_utc p = ts"
    using nearest_exact [OF assms] by blast
qed

theorem nearest_sample_minimal_witness:
  "sorted (map time_utc [sample_a, sample_b, sample_c])
   \<and> find_nearest_timeline_point [sample_a, sample_b, sample_c] (-5) = Some sample_a
   \<and> find_nearest_timeline_point [sample_a, sample_b, sample_c] 25 = Some sample_c
   \<and> (\<exists>p. find_nearest_timeline_point [sample_a, sample_b, sample_c] 10 = Some p \<and> time_utc p = 10)
   \<and> (\<exists>p. find_nearest_timeline_point [sample_a, sample_b, sample_c] 13 = Some p
          \<and> (\<forall>q\<in>set [sample_a, sample_b, sample_c]. \<bar>time_utc p - 13\<bar> \<le> \<bar>time_utc q - 13\<bar>))"
  using nearest_sample_minimal [OF sorted_abc, of "-5"]
    nearest_sample_minimal [OF sorted_abc, of 25]
    nearest_sample_minimal [OF sorted_abc, of 10]
    nearest_sample_minimal [OF sorted_abc, of 13]
  by (simp add: sample_a_def sample_b_def sample_c_def) blast

text \<open>
  C2 (as stated). On an exact tie between two adjacent samples the lookup returns the
  earlier-indexed one. The candidate list holds the sample at the insertion index first and
  the sample before it second, and \<^verbatim>\<open>min\<close> keeps the first of two equal keys: with
  samples at instants 0 and 10 and the query 5, the sample at 10 is returned.
\<close>

theorem nearest_tie_left_counterexample:
  "find_nearest_timeline_point [sample_a, sample_b] 5 = Some sample_b
   \<and> find_nearest_timeline_point [sample_a, sample_b] 5 \<noteq> Some sample_a
   \<and> \<bar>time_utc sample_a - 5\<bar> = \<bar>time_utc sample_b - 5\<bar>"
  by (simp add: find_nearest_timeline_point_def bisect_left_def bisect_left_loop.simps
      sample_a_def sample_b_def Let_def)

text \<open>
  C2 (amended). On an index sorted by instant, a query exactly half way between two
  adjacent samples of distinct instants returns the later-indexed of the two (the one with
  the larger instant); the result is a function of the index and the query.
\<close>

theorem nearest_tie_later_wins:
  assumes "sorted (map time_utc points)" and "Suc i < length points"
    and "time_utc (points ! i) < time_utc (points ! Suc i)"
    and "ts - time_utc (points ! i) = time_utc (points ! Suc i) - ts"
  shows "find_nearest_timeline_point points ts = Some (points ! Suc i)"
  using assms by (rule nearest_tie_right)

theorem nearest_tie_later_wins_witness:
  "sorted (map time_utc [sample_a, sample_b, sample_c])
   \<and> Suc 1 < length [sample_a, sample_b, sample_c]
   \<and> time_utc ([sample_a, sample_b, sample_c] ! 1) < time_utc ([sample_a, sample_b, sample_c] ! Suc 1)
   \<and> 15 - time_utc ([sample_a, sample_b, sample_c] ! 1) = time_utc ([sample_a, sample_b, sample_c] ! Suc 1) - 15
   \<and> find_nearest_timeline_point [sample_a, sample_b, sample_c] 15 = Some sample_c"
  using nearest_tie_later_wins [of "[sample_a, sample_b, sample_c]" 1 15]
  by (simp add: sample_a_def sample_b_def sample_c_def)

text \<open>
  C3. A photograph whose tag map loads, whose original timestamp is a byte string that
  resolves (localized to the camera zone, converted to UTC) to the instant \<open>t\<close>, and
  whose instant is further than \<open>max_gap\<close> from every sample of the index, is skipped by
  the loop of the batch driver: the skipped counter grows by one and nothing else of the
  state changes; in particular the files are the same, so no field of the photograph is
  written.
\<close>

theorem far_photo_is_skipped:
  assumes "piexif_load c (files st) photo = Some exif_dict"
    and "get_tag exif_dict ''Exif'' DateTimeOriginal = Some (Bytes b)"
    and "photo_instant c b = Some t"
    and "\<forall>p\<in>set (index st). max_gap < \<bar>time_utc p - t\<bar>"
  shows "process_photo c max_gap apply backup overwrite_gps st photo = st\<lparr>skipped := skipped st + 1\<rparr>
       \<and> files (process_photo c max_gap apply backup overwrite_gps st photo) = files st"
  using process_photo_no_close_match [OF assms] by (simp add: skip_def)

theorem far_photo_is_skipped_witness:
  "piexif_load demo demo_files ''d.jpg'' = Some photo_next_day
   \<and> get_tag photo_next_day ''Exif'' DateTimeOriginal = Some (Bytes ''2024:06:02 10:30:00'')
   \<and> photo_instant demo ''2024:06:02 10:30:00'' = Some 1717349400000000
   \<and> one_hour < \<bar>time_utc demo_sample - 1717349400000000\<bar>
   \<and> process_photo demo one_hour True True False
        \<lparr>files = demo_files, index = [demo_sample], processed = 0, skipped = 0\<rparr> ''d.jpg''
       = \<lparr>files = demo_files, index = [demo_sample], processed = 0, skipped = 1\<rparr>"
proof -
  let ?st = "\<lparr>files = demo_files, index = [demo_sample], processed = 0, skipped = 0\<rparr>"
  have h1: "piexif_load demo (files ?st) ''d.jpg'' = Some photo_next_day"
    by (simp add: demo_def demo_files_def)
  have h2: "get_tag photo_next_day ''Exif'' DateTimeOriginal = Some (Bytes ''2024:06:02 10:30:00'')"
    by (simp add: get_tag_def photo_next_day_def)
  have h3: "photo_instant demo ''2024:06:02 10:30:00'' = Some 1717349400000000"
    by code_simp
  have h4: "\<forall>p\<in>set (index ?st). one_hour < \<bar>time_utc p - 1717349400000000\<bar>"
    by (simp add: demo_sample_def one_hour_def)
  have h5: "one_hour < \<bar>time_utc demo_sample - 1717349400000000\<bar>"
    by (simp add: demo_sample_def one_hour_def)
  from far_photo_is_skipped [OF h1 h2 h3 h4, of True True False] h1 h2 h3 h5
  show ?thesis by simp
qed

text \<open>
  C4. A UTC offset that is a whole number \<open>m\<close> of minutes, below one hundred hours in
  magnitude (a UTC offset is below 24 hours), is formatted as six characters: the sign
  (\<open>+\<close> when \<open>m\<close> is not negative, \<open>-\<close> otherwise), the two decimal digits of the hours
  \<open>\<bar>m\<bar> div 60\<close>, a colon, and the two decimal digits of the minutes \<open>\<bar>m\<bar> mod 60\<close>. Both
  float divisions of the source are exact on such a value. In particular -28800 seconds
  gives \<open>-08:00\<close>, 19800 seconds gives \<open>+05:30\<close> and 0 gives \<open>+00:00\<close>.
\<close>

theorem format_tz_offset_whole_minutes:
  assumes "td = 60000000 * m" and "\<bar>m\<bar> < 6000"
  shows "format_tz_offset td =
           [if 0 \<le> m then CHR ''+'' else CHR ''-'',
            digit_char (nat (\<bar>m\<bar> div 60) div 10), digit_char (nat (\<bar>m\<bar> div 60) mod 10),
            CHR '':'',
            digit_char (nat (\<bar>m\<bar> mod 60) div 10), digit_char (nat (\<bar>m\<bar> mod 60) mod 10)]"
proof -
  have hh: "nat (\<bar>m\<bar> div 60) < 100" using assms(2) by simp
  have mm: "nat (\<bar>m\<bar> mod 60) < 100" by simp
  show ?thesis
    unfolding format_tz_offset_def assms(1) whole_minutes_exact [OF assms(2)] Let_def
    by (simp add: fmt_02d_two_digits [OF hh] fmt_02d_two_digits [OF mm])
qed

theorem format_tz_offset_whole_minutes_witness:
  "format_tz_offset (- 28800000000) = ''-08:00''
   \<and> format_tz_offset 19800000000 = ''+05:30''
   \<and> format_tz_offset 0 = ''+00:00''"
  using format_tz_offset_whole_minutes [of "- 28800000000" "- 480"]
    format_tz_offset_whole_minutes [of 19800000000 330]
    format_tz_offset_whole_minutes [of 0 0]
  by (simp add: digit_char_def)

text \<open>
  C5. A visit segment is a dict with no \<^verbatim>\<open>timelinePath\<close> key whose \<^verbatim>\<open>visit\<close> holds, under
  \<^verbatim>\<open>topCandidate\<close>, \<^verbatim>\<open>placeLocation\<close> and \<^verbatim>\<open>latLng\<close>, the coordinate string of the top
  candidate. When that string, with the degree signs removed, split at the comma and
  trimmed, gives two numerals that convert to \<open>la\<close> and \<open>lo\<close>, and the start and end
  times parse to \<open>start_utc\<close> and \<open>end_utc\<close>, the segment adds exactly one sample: its
  coordinate is \<open>(la, lo)\<close>, the top-candidate location, and its instant is
  \<^verbatim>\<open>start + (end - start) / 2\<close>, the division being that of timedeltas (rounded to a
  whole microsecond, half to even). The instant is the exact midpoint when the interval
  is an even number of microseconds, and within half a microsecond of it otherwise. A
  visit from 10:00:00 to 12:00:00 UTC on 2024-01-01 gives one sample at 11:00:00 UTC.
\<close>

theorem visit_midpoint:
  assumes "seg = JObj kvs" and "''timelinePath'' \<notin> set (map fst kvs)"
    and "map_of kvs ''visit'' = Some (JObj visit)"
    and "map_of visit ''topCandidate'' = Some (JObj top_candidate)"
    and "map_of top_candidate ''placeLocation'' = Some (JObj place_location)"
    and "map_of place_location ''latLng'' = Some (JStr loc_str)"
    and "map py_strip (split_on (CHR '','') (py_strip (filter (\<lambda>c. c \<noteq> degree_sign) loc_str)))
           = [lat_str, lon_str]"
    and "float_of lat_str = Some la" and "float_of lon_str = Some lo"
    and "map_of kvs ''startTime'' = Some (JStr s1)" and "isoparse s1 = Some start_utc"
    and "map_of kvs ''endTime'' = Some (JStr s2)" and "isoparse s2 = Some end_utc"
  shows "process_segment float_of isoparse tf_points seg =
           tf_points @ [\<lparr>time_utc = start_utc + divide_and_round (end_utc - start_utc) 2,
                         lat = la, lon = lo\<rparr>]
       \<and> load_timeline_points float_of isoparse [seg] =
           [\<lparr>time_utc = start_utc + divide_and_round (end_utc - start_utc) 2,
             lat = la, lon = lo\<rparr>]
       \<and> \<bar>2 * (start_utc + divide_and_round (end_utc - start_utc) 2) - (start_utc + end_utc)\<bar> \<le> 1
       \<and> (even (end_utc - start_utc) \<longrightarrow>
            2 * (start_utc + divide_and_round (end_utc - start_utc) 2) = start_utc + end_utc)"
proof -
  have "parse_latlng float_of (JStr loc_str) = Inr (la, lo)"
    using assms(7-9) by (simp add: parse_latlng_def)
  then have ll: "visit_latlng float_of seg = Inr (la, lo)"
    using assms(1,3-6) by (simp add: visit_latlng_def py_item_def)
  have seg: "\<And>pts. process_segment float_of isoparse pts seg =
           pts @ [\<lparr>time_utc = start_utc + divide_and_round (end_utc - start_utc) 2,
                   lat = la, lon = lo\<rparr>]"
    using assms(1,2) ll assms(10-13) by (rule process_visit_segment)
  have "\<bar>2 * divide_and_round (end_utc - start_utc) 2 - (end_utc - start_utc)\<bar> \<le> 1"
    by (rule divide_and_round_2_error)
  moreover have "even (end_utc - start_utc) \<Longrightarrow>
      2 * divide_and_round (end_utc - start_utc) 2 = end_utc - start_utc"
    by (rule divide_and_round_2_even)
  ultimately show ?thesis
    using seg [of tf_points] seg [of "[]"]
    by (simp add: load_timeline_points_def)
qed

theorem visit_midpoint_witness:
  "map py_strip (split_on (CHR '','')
       (py_strip (filter (\<lambda>c. c \<noteq> degree_sign) (''35.0'' @ [degree_sign] @ '', 139.0'' @ [degree_sign]))))
     = [''35.0'', ''139.0'']
   \<and> float_plain ''35.0'' = Some (Finite 35)
   \<and> float_plain ''139.0'' = Some (Finite 139)
   \<and> iso_plain ''2024-01-01T10:00:00Z'' = Some 1704103200000000
   \<and> iso_plain ''2024-01-01T12:00:00Z'' = Some 1704110400000000
   \<and> iso_plain ''2024-01-01T11:00:00Z'' = Some 1704106800000000
   \<and> load_timeline_points float_plain iso_plain [visit_example] =
       [\<lparr>time_utc = 1704106800000000, lat = Finite 35, lon = Finite 139\<rparr>]"
proof -
  define loc where "loc = ''35.0'' @ [degree_sign] @ '', 139.0'' @ [degree_sign]"
  define pl where "pl = [(''latLng'', JStr loc)]"
  define tc where "tc = [(''placeLocation'', JObj pl)]"
  define v where "v = [(''topCandidate'', JObj tc)]"
  define kvs where "kvs = [(''startTime'', JStr ''2024-01-01T10:00:00Z''),
           (''endTime'', JStr ''2024-01-01T12:00:00Z''), (''visit'', JObj v)]"
  have h1: "visit_example = JObj kvs"
    by (simp add: visit_example_def kvs_def v_def tc_def pl_def loc_def)
  have h2: "''timelinePath'' \<notin> set (map fst kvs)" by (simp add: kvs_def)
  have k1: "map_of kvs ''visit'' = Some (JObj v)" by (simp add: kvs_def)
  have k2: "map_of v ''topCandidate'' = Some (JObj tc)" by (simp add: v_def)
  have k3: "map_of tc ''placeLocation'' = Some (JObj pl)" by (simp add: tc_def)
  have k4: "map_of pl ''latLng'' = Some (JStr loc)" by (simp add: pl_def)
  have p1: "map py_strip (split_on (CHR '','') (py_strip (filter (\<lambda>c. c \<noteq> degree_sign) loc)))
      = [''35.0'', ''139.0'']"
    unfolding loc_def by code_simp
  have p2: "float_plain ''35.0'' = Some (Finite 35)" by code_simp
  have p3: "float_plain ''139.0'' = Some (Finite 139)" by code_simp
  have h4: "map_of kvs ''startTime'' = Some (JStr ''2024-01-01T10:00:00Z'')" by (simp add: kvs_def)
  have h5: "iso_plain ''2024-01-01T10:00:00Z'' = Some 1704103200000000" by code_simp
  have h6: "map_of kvs ''endTime'' = Some (JStr ''2024-01-01T12:00:00Z'')" by (simp add: kvs_def)
  have h7: "iso_plain ''2024-01-01T12:00:00Z'' = Some 1704110400000000" by code_simp
  have h8: "iso_plain ''2024-01-01T11:00:00Z'' = Some 1704106800000000" by code_simp
  have h9: "1704103200000000 + divide_and_round (1704110400000000 - 1704103200000000) 2
      = 1704106800000000" by (simp add: divide_and_round_def)
  from visit_midpoint [OF h1 h2 k1 k2 k3 k4 p1 p2 p3 h4 h5 h6 h7, of "[]"]
    p1 p2 p3 h5 h7 h8 h9
  show ?thesis by (simp add: loc_def)
qed

text \<open>
  C6 (as stated). A malformed coordinate string only skips its own path entry. The
  \<^verbatim>\<open>try\<close> of the build encloses the loop over the entries of the segment, so the
  exception of one entry ends the loop: a well-formed entry that follows a malformed one
  in the same segment is not added.
\<close>

theorem malformed_entry_counterexample:
  "add_point_from_path_entry float_plain iso_plain [] path_entry_2 =
     Inr [\<lparr>time_utc = 1717261200000000, lat = Finite 35, lon = Finite 139\<rparr>]
   \<and> load_timeline_points float_plain iso_plain [path_bad_first] = []"
  by code_simp

text \<open>
  C6 (amended). In a path segment, an entry with a malformed coordinate string ends the
  processing of its segment: the entries before it have added their points, the entry
  itself and the entries after it add none. Every other segment adds its points as it
  does alone, and the build returns the sorted list of all of them.
\<close>

theorem malformed_entry_ends_segment:
  assumes "seg = JObj kvs"
    and "map_of kvs ''timelinePath'' = Some (JArr (pre @ bad # post))"
    and "list_all2 (\<lambda>e p. add_point_from_path_entry float_of isoparse [] e = Inr [p]) pre ps"
    and "py_item bad ''point'' = Inr (JStr s)" and "parse_latlng float_of (JStr s) = Inl err"
  shows "process_segment float_of isoparse tf_points seg = tf_points @ ps
       \<and> load_timeline_points float_of isoparse (segs1 @ seg # segs2) =
           sort_key time_utc
             (concat (map (process_segment float_of isoparse []) segs1) @ ps
              @ concat (map (process_segment float_of isoparse []) segs2))"
proof -
  have "\<And>pts. process_segment float_of isoparse pts seg = pts @ ps"
    using assms by (rule process_path_segment_malformed)
  from this [of tf_points] this [of "[]"] show ?thesis
    by (simp add: load_timeline_points_concat)
qed

theorem malformed_entry_ends_segment_witness:
  "parse_latlng float_plain (JStr ''35.0 139.0'') = Inl ValueError
   \<and> process_segment float_plain iso_plain [] path_bad_middle =
       [\<lparr>time_utc = 1717264800000000, lat = Finite (71 / 2), lon = Finite (279 / 2)\<rparr>]
   \<and> load_timeline_points float_plain iso_plain [visit_example, path_bad_middle, path_example] =
       [\<lparr>time_utc = 1704106800000000, lat = Finite 35, lon = Finite 139\<rparr>,
        \<lparr>time_utc = 1717261200000000, lat = Finite 35, lon = Finite 139\<rparr>,
        \<lparr>time_utc = 1717264800000000, lat = Finite (71 / 2), lon = Finite (279 / 2)\<rparr>,
        \<lparr>time_utc = 1717264800000000, lat = Finite (71 / 2), lon = Finite (279 / 2)\<rparr>]"
proof -
  define p1 where "p1 = \<lparr>time_utc = 1717264800000000, lat = Finite (71 / 2), lon = Finite (279 / 2)\<rparr>"
  have h1: "path_bad_middle = JObj [(''timelinePath'', JArr ([path_entry_1] @ path_entry_bad # [path_entry_2]))]"
    by (simp add: path_bad_middle_def)
  have h2: "map_of [(''timelinePath'', JArr ([path_entry_1] @ path_entry_bad # [path_entry_2]))] ''timelinePath''
      = Some (JArr ([path_entry_1] @ path_entry_bad # [path_entry_2]))" by simp
  have e1: "add_point_from_path_entry float_plain iso_plain [] path_entry_1 = Inr [p1]"
    unfolding p1_def by code_simp
  have h3: "list_all2 (\<lambda>e p. add_point_from_path_entry float_plain iso_plain [] e = Inr [p])
      [path_entry_1] [p1]" using e1 by simp
  have h4: "py_item path_entry_bad ''point'' = Inr (JStr ''35.0 139.0'')"
    by (simp add: path_entry_bad_def py_item_def)
  have h5: "parse_latlng float_plain (JStr ''35.0 139.0'') = Inl ValueError" by code_simp
  have v: "process_segment float_plain iso_plain [] visit_example =
      [\<lparr>time_utc = 1704106800000000, lat = Finite 35, lon = Finite 139\<rparr>]" by code_simp
  have p: "process_segment float_plain iso_plain [] path_example =
      [p1, \<lparr>time_utc = 1717261200000000, lat = Finite 35, lon = Finite 139\<rparr>]"
    unfolding p1_def by code_simp
  from malformed_entry_ends_segment [OF h1 h2 h3 h4 h5, of "[]" "[visit_example]" "[path_example]"]
    h5 v p
  show ?thesis by (simp add: p1_def)
qed

text \<open>
  C7 (as stated). Encoding a coordinate and decoding it gives the coordinate back within
  1/360000 degree. That bound is the one of exact arithmetic. The encoder computes in
  binary64 and truncates the rounded product \<^verbatim>\<open>seconds * 100\<close>: for the float nearest to
  0.737325 the rounded product falls just below 1437, the encoder stores 1436, and the
  decoded value is further than 1/360000 degree from the coordinate.
\<close>

theorem dms_round_trip_counterexample:
  "round64 (737325 / 1000000) = 3320616595250951 / 4503599627370496
   \<and> \<bar>3320616595250951 / 4503599627370496 :: rat\<bar> \<le> 180
   \<and> deg_to_dms_rational (Finite (3320616595250951 / 4503599627370496))
       = Inr [(0, 1), (44, 1), (1436, 100)]
   \<and> 1 / 360000 < \<bar>3320616595250951 / 4503599627370496
                     - spec_dms_decode ''N'' [(0, 1), (44, 1), (1436, 100)]\<bar>"
  by code_simp

text \<open>
  C7 (amended). For every finite coordinate in [-180, 180], the encoder returns three
  rationals (degrees over 1, minutes over 1, hundredths of seconds over 100), and decoding
  them with the hemisphere letter the program writes (\<open>N\<close> or \<open>E\<close> for a value that is
  not negative, \<open>S\<close> or \<open>W\<close> otherwise) gives a value within (1 + 2^-34) / 360000
  degree of the coordinate: the bound of exact arithmetic, widened by the rounding of the
  five float operations of the encoder.
\<close>

theorem dms_round_trip:
  assumes "\<bar>x\<bar> \<le> 180"
  shows "\<exists>dms. deg_to_dms_rational (Finite x) = Inr dms
     \<and> \<bar>x - spec_dms_decode (if float_ge_0 (Finite x) then ''N'' else ''S'') dms\<bar>
         < 1 / 360000 + 1 / (360000 * 2 ^ 34)
     \<and> \<bar>x - spec_dms_decode (if float_ge_0 (Finite x) then ''E'' else ''W'') dms\<bar>
         < 1 / 360000 + 1 / (360000 * 2 ^ 34)"
proof -
  obtain dms where dms: "deg_to_dms_rational (Finite x) = Inr dms"
    by (simp add: deg_to_dms_rational_finite)
  have b: "\<bar>\<bar>x\<bar> - spec_dms_decode ''N'' dms\<bar> < 1 / 360000 + 1 / (360000 * 2 ^ 34)"
    using dms by (rule dms_encode_decode_abs)
  show ?thesis
  proof (cases "0 \<le> x")
    case True
    with b dms show ?thesis by (simp add: spec_dms_decode_east)
  next
    case False
    then have "x + spec_dms_decode ''N'' dms = - (\<bar>x\<bar> - spec_dms_decode ''N'' dms)" by simp
    then have "\<bar>x + spec_dms_decode ''N'' dms\<bar> = \<bar>\<bar>x\<bar> - spec_dms_decode ''N'' dms\<bar>"
      by (simp only: abs_minus)
    with b have "\<bar>x + spec_dms_decode ''N'' dms\<bar> < 1 / 360000 + 1 / (360000 * 2 ^ 34)"
      by (simp only:)
    with False dms show ?thesis
      by (simp add: spec_dms_decode_south spec_dms_decode_west)
  qed
qed

theorem dms_round_trip_witness:
  "\<bar>3320616595250951 / 4503599627370496 :: rat\<bar> \<le> 180
   \<and> deg_to_dms_rational (Finite (3320616595250951 / 4503599627370496))
       = Inr [(0, 1), (44, 1), (1436, 100)]
   \<and> \<bar>3320616595250951 / 4503599627370496
        - spec_dms_decode ''N'' [(0, 1), (44, 1), (1436, 100)]\<bar>
       < 1 / 360000 + 1 / (360000 * 2 ^ 34)"
proof -
  have h: "\<bar>3320616595250951 / 4503599627370496 :: rat\<bar> \<le> 180" by simp
  have e: "deg_to_dms_rational (Finite (3320616595250951 / 4503599627370496))
       = Inr [(0, 1), (44, 1), (1436, 100)]" by code_simp
  from dms_round_trip [OF h] e h show ?thesis by simp
qed

text \<open>
  C8. The list the build returns is non-decreasing in the instant: for all positions
  \<open>i < j\<close> the instant at \<open>i\<close> is at most the instant at \<open>j\<close>. The loop over the
  photographs leaves the index it holds as the build returned it.
\<close>

theorem index_sorted_and_read_only:
  "(\<forall>i j. i < j \<and> j < length (load_timeline_points float_of isoparse segments) \<longrightarrow>
      time_utc (load_timeline_points float_of isoparse segments ! i)
        \<le> time_utc (load_timeline_points float_of isoparse segments ! j))
   \<and> index (photo_loop c max_gap apply backup overwrite_gps fs
              (load_timeline_points float_of isoparse segments) photo_paths)
       = load_timeline_points float_of isoparse segments"
proof -
  have "sorted (map time_utc (load_timeline_points float_of isoparse segments))"
    by (rule load_timeline_points_sorted)
  then have "\<forall>i j. i < j \<and> j < length (load_timeline_points float_of isoparse segments) \<longrightarrow>
      map time_utc (load_timeline_points float_of isoparse segments) ! i
        \<le> map time_utc (load_timeline_points float_of isoparse segments) ! j"
    by (auto simp: sorted_iff_nth_mono)
  then show ?thesis by (simp add: photo_loop_index)
qed

theorem index_sorted_and_read_only_witness:
  "load_timeline_points float_plain iso_plain [path_example, visit_example] =
     [\<lparr>time_utc = 1704106800000000, lat = Finite 35, lon = Finite 139\<rparr>,
      \<lparr>time_utc = 1717261200000000, lat = Finite 35, lon = Finite 139\<rparr>,
      \<lparr>time_utc = 1717264800000000, lat = Finite (71 / 2), lon = Finite (279 / 2)\<rparr>]
   \<and> (0::nat) < 2 \<and> (2::nat) < 3
   \<and> time_utc (load_timeline_points float_plain iso_plain [path_example, visit_example] ! 0)
       \<le> time_utc (load_timeline_points float_plain iso_plain [path_example, visit_example] ! 2)
   \<and> index (photo_loop demo one_hour True False False demo_files
        (load_timeline_points float_plain iso_plain [path_example, visit_example]) [''a.jpg''])
       = load_timeline_points float_plain iso_plain [path_example, visit_example]"
proof -
  have l: "load_timeline_points float_plain iso_plain [path_example, visit_example] =
     [\<lparr>time_utc = 1704106800000000, lat = Finite 35, lon = Finite 139\<rparr>,
      \<lparr>time_utc = 1717261200000000, lat = Finite 35, lon = Finite 139\<rparr>,
      \<lparr>time_utc = 1717264800000000, lat = Finite (71 / 2), lon = Finite (279 / 2)\<rparr>]"
    by code_simp
  have "(0::nat) < 2 \<and> 2 < length (load_timeline_points float_plain iso_plain [path_example, visit_example])"
    by (simp add: l)
  with index_sorted_and_read_only [of float_plain iso_plain "[path_example, visit_example]"
      demo one_hour True False False demo_files "[''a.jpg'']"]
  show ?thesis by (simp add: l)
qed

text \<open>
  C9 (the code at the failing input). A photograph with a timestamp, a sample within the
  gap and both GPS coordinate tags, run without the overwrite flag: \<^verbatim>\<open>update_photo\<close>
  returns \<^verbatim>\<open>False\<close>, and the loop of \<^verbatim>\<open>main\<close> increments \<^verbatim>\<open>processed\<close> only on
  \<^verbatim>\<open>True\<close> and \<^verbatim>\<open>skipped\<close> only on its own skips and on an exception. After the batch
  of this one photograph both counters are zero.
\<close>

theorem already_tagged_photo_is_not_counted:
  "photo_loop demo one_hour True False False demo_files [demo_sample] [''b.jpg'']
     = \<lparr>files = demo_files, index = [demo_sample], processed = 0, skipped = 0\<rparr>"
proof -
  have load: "piexif_load demo demo_files ''b.jpg'' = Some photo_tagged"
    by (simp add: demo_def demo_files_def)
  have exif: "map_of photo_tagged ''Exif'' = Some [(DateTimeOriginal, Bytes ''2024:06:01 10:30:00'')]"
    by (simp add: photo_tagged_def)
  have gap: "\<not> one_hour < \<bar>time_utc demo_sample - 1717263000000000\<bar>"
    by (simp add: demo_sample_def one_hour_def)
  have upd: "update_photo demo demo_files ''b.jpg'' demo_sample True False False
      = (Returned False, demo_files)"
    using load has_gps_photo_tagged by (rule update_photo_already_tagged)
  show ?thesis
    by (simp add: photo_loop_def process_photo_def Let_def load exif demo_instant_june_1
        nearest_single gap upd)
qed

text \<open>
  C10. For a photograph whose tag map loads, run without the overwrite flag: the test for
  GPS tags already present holds exactly when the GPS group has non-empty values for both
  \<^verbatim>\<open>GPSLatitude\<close> and \<^verbatim>\<open>GPSLongitude\<close>, and then the photograph is skipped with the
  files unchanged. Otherwise (one of the two tags missing or empty) the photograph is
  treated as an untagged one: the run is the run with the overwrite flag set, and when
  the later steps succeed (the timestamp resolves, a timezone covers the sample, the
  \<^verbatim>\<open>0th\<close> group exists, the coordinates are finite) the three date fields hold the new
  local time, the three offset fields the new offset, and the four GPS fields the
  encoded coordinate of the sample; the preview returns \<^verbatim>\<open>True\<close> with the files
  unchanged, and the apply mode hands this tag map to the codec.
\<close>

theorem gps_skip_needs_both_coordinates:
  assumes load: "piexif_load c fs filepath = Some exif_dict"
  shows "has_gps exif_dict =
           (truthy (get_tag exif_dict ''GPS'' GPSLatitude)
            \<and> truthy (get_tag exif_dict ''GPS'' GPSLongitude))
       \<and> (has_gps exif_dict \<longrightarrow>
            update_photo c fs filepath tl_point apply backup False = (Returned False, fs))
       \<and> (\<not> has_gps exif_dict \<longrightarrow>
            update_photo c fs filepath tl_point apply backup False =
            update_photo c fs filepath tl_point apply backup True)
       \<and> (\<not> has_gps exif_dict
            \<and> get_tag exif_dict ''Exif'' DateTimeOriginal = Some (Bytes b)
            \<and> photo_instant c b = Some t
            \<and> timezone_at c (lat tl_point) (lon tl_point) = Some (Some tz_name)
            \<and> local_time c tz_name t = Some (local_dt_str, utcoffset)
            \<and> map_of exif_dict ''0th'' = Some g0
            \<and> deg_to_dms_rational (lat tl_point) = Inr dla
            \<and> deg_to_dms_rational (lon tl_point) = Inr dlo \<longrightarrow>
            (\<exists>d'. get_tag d' ''Exif'' DateTimeOriginal = Some (Bytes local_dt_str)
               \<and> get_tag d' ''Exif'' DateTimeDigitized = Some (Bytes local_dt_str)
               \<and> get_tag d' ''0th'' DateTime = Some (Bytes local_dt_str)
               \<and> get_tag d' ''Exif'' OffsetTime =
                   Some (Bytes (format_tz_offset (case utcoffset of None \<Rightarrow> 0 | Some d \<Rightarrow> d)))
               \<and> get_tag d' ''Exif'' OffsetTimeOriginal =
                   Some (Bytes (format_tz_offset (case utcoffset of None \<Rightarrow> 0 | Some d \<Rightarrow> d)))
               \<and> get_tag d' ''Exif'' OffsetTimeDigitized =
                   Some (Bytes (format_tz_offset (case utcoffset of None \<Rightarrow> 0 | Some d \<Rightarrow> d)))
               \<and> get_tag d' ''GPS'' GPSLatitudeRef =
                   Some (Bytes (if float_ge_0 (lat tl_point) then ''N'' else ''S''))
               \<and> get_tag d' ''GPS'' GPSLatitude = Some (Rationals dla)
               \<and> get_tag d' ''GPS'' GPSLongitudeRef =
                   Some (Bytes (if float_ge_0 (lon tl_point) then ''E'' else ''W''))
               \<and> get_tag d' ''GPS'' GPSLongitude = Some (Rationals dlo)
               \<and> update_photo c fs filepath tl_point False backup False = (Returned True, fs)
               \<and> update_photo c fs filepath tl_point True backup False =
                   (case piexif_insert c (if backup then copy_backup c fs filepath else fs)
                           filepath d' of
                      (True, fs2) \<Rightarrow> (Returned True, fs2)
                    | (False, fs2) \<Rightarrow> (Raised OtherError, fs2))))"
proof (intro conjI impI)
  show "has_gps exif_dict =
           (truthy (get_tag exif_dict ''GPS'' GPSLatitude)
            \<and> truthy (get_tag exif_dict ''GPS'' GPSLongitude))"
    by (rule has_gps_get_tag)
next
  assume "has_gps exif_dict"
  with load show "update_photo c fs filepath tl_point apply backup False = (Returned False, fs)"
    by (rule update_photo_already_tagged)
next
  assume "\<not> has_gps exif_dict"
  with load show "update_photo c fs filepath tl_point apply backup False =
            update_photo c fs filepath tl_point apply backup True"
    by (rule update_photo_overwrite_irrelevant)
next
  assume a: "\<not> has_gps exif_dict
            \<and> get_tag exif_dict ''Exif'' DateTimeOriginal = Some (Bytes b)
            \<and> photo_instant c b = Some t
            \<and> timezone_at c (lat tl_point) (lon tl_point) = Some (Some tz_name)
            \<and> local_time c tz_name t = Some (local_dt_str, utcoffset)
            \<and> map_of exif_dict ''0th'' = Some g0
            \<and> deg_to_dms_rational (lat tl_point) = Inr dla
            \<and> deg_to_dms_rational (lon tl_point) = Inr dlo"
  define offset_str where
    "offset_str = format_tz_offset (case utcoffset of None \<Rightarrow> 0 | Some d \<Rightarrow> d)"
  from a obtain g where
    g: "map_of exif_dict ''Exif'' = Some g" "map_of g DateTimeOriginal = Some (Bytes b)"
    by (auto simp: get_tag_def split: option.splits)
  from a have g0: "map_of exif_dict ''0th'' = Some g0"
    and dla: "deg_to_dms_rational (lat tl_point) = Inr dla"
    and dlo: "deg_to_dms_rational (lon tl_point) = Inr dlo" by simp_all
  from updated_exif_fields [OF g(1) g0 dla dlo, of local_dt_str offset_str]
  obtain d' where d': "updated_exif exif_dict local_dt_str offset_str tl_point = Inr d'"
    and fields: "get_tag d' ''Exif'' DateTimeOriginal = Some (Bytes local_dt_str)"
      "get_tag d' ''Exif'' DateTimeDigitized = Some (Bytes local_dt_str)"
      "get_tag d' ''0th'' DateTime = Some (Bytes local_dt_str)"
      "get_tag d' ''Exif'' OffsetTime = Some (Bytes offset_str)"
      "get_tag d' ''Exif'' OffsetTimeOriginal = Some (Bytes offset_str)"
      "get_tag d' ''Exif'' OffsetTimeDigitized = Some (Bytes offset_str)"
      "get_tag d' ''GPS'' GPSLatitudeRef =
         Some (Bytes (if float_ge_0 (lat tl_point) then ''N'' else ''S''))"
      "get_tag d' ''GPS'' GPSLatitude = Some (Rationals dla)"
      "get_tag d' ''GPS'' GPSLongitudeRef =
         Some (Bytes (if float_ge_0 (lon tl_point) then ''E'' else ''W''))"
      "get_tag d' ''GPS'' GPSLongitude = Some (Rationals dlo)"
    by blast
  have dry: "update_photo c fs filepath tl_point False backup False = (Returned True, fs)"
    using load a g d' by (simp add: update_photo_def Let_def offset_str_def)
  have wet: "update_photo c fs filepath tl_point True backup False =
      (case piexif_insert c (if backup then copy_backup c fs filepath else fs) filepath d' of
         (True, fs2) \<Rightarrow> (Returned True, fs2)
       | (False, fs2) \<Rightarrow> (Raised OtherError, fs2))"
    using load a g d' by (simp add: update_photo_def Let_def offset_str_def)
  show "\<exists>d'. get_tag d' ''Exif'' DateTimeOriginal = Some (Bytes local_dt_str)
               \<and> get_tag d' ''Exif'' DateTimeDigitized = Some (Bytes local_dt_str)
               \<and> get_tag d' ''0th'' DateTime = Some (Bytes local_dt_str)
               \<and> get_tag d' ''Exif'' OffsetTime =
                   Some (Bytes (format_tz_offset (case utcoffset of None \<Rightarrow> 0 | Some d \<Rightarrow> d)))
               \<and> get_tag d' ''Exif'' OffsetTimeOriginal =
                   Some (Bytes (format_tz_offset (case utcoffset of None \<Rightarrow> 0 | Some d \<Rightarrow> d)))
               \<and> get_tag d' ''Exif'' OffsetTimeDigitized =
                   Some (Bytes (format_tz_offset (case utcoffset of None \<Rightarrow> 0 | Some d \<Rightarrow> d)))
               \<and> get_tag d' ''GPS'' GPSLatitudeRef =
                   Some (Bytes (if float_ge_0 (lat tl_point) then ''N'' else ''S''))
               \<and> get_tag d' ''GPS'' GPSLatitude = Some (Rationals dla)
               \<and> get_tag d' ''GPS'' GPSLongitudeRef =
                   Some (Bytes (if float_ge_0 (lon tl_point) then ''E'' else ''W''))
               \<and> get_tag d' ''GPS'' GPSLongitude = Some (Rationals dlo)
               \<and> update_photo c fs filepath tl_point False backup False = (Returned True, fs)
               \<and> update_photo c fs filepath tl_point True backup False =
                   (case piexif_insert c (if backup then copy_backup c fs filepath else fs)
                           filepath d' of
                      (True, fs2) \<Rightarrow> (Returned True, fs2)
                    | (False, fs2) \<Rightarrow> (Raised OtherError, fs2))"
    using fields dry wet unfolding offset_str_def by blast
qed

theorem gps_skip_needs_both_coordinates_witness:
  "piexif_load demo demo_files ''b.jpg'' = Some photo_tagged
   \<and> has_gps photo_tagged
   \<and> update_photo demo demo_files ''b.jpg'' demo_sample True False False
       = (Returned False, demo_files)
   \<and> piexif_load demo demo_files ''c.jpg'' = Some photo_latitude_only
   \<and> \<not> has_gps photo_latitude_only
   \<and> update_photo demo demo_files ''c.jpg'' demo_sample True False False =
       (Returned True, AList.update ''c.jpg''
        [(''0th'', [(DateTime, Bytes ''2024:06:02 02:30:00'')]),
          (''Exif'', [(DateTimeOriginal, Bytes ''2024:06:02 02:30:00''),
                      (DateTimeDigitized, Bytes ''2024:06:02 02:30:00''),
                      (OffsetTime, Bytes ''+09:00''),
                      (OffsetTimeOriginal, Bytes ''+09:00''),
                      (OffsetTimeDigitized, Bytes ''+09:00'')]),
          (''GPS'', [(GPSLatitudeRef, Bytes ''N''),
                     (GPSLatitude, Rationals [(35, 1), (0, 1), (0, 100)]),
                     (GPSLongitudeRef, Bytes ''E''),
                     (GPSLongitude, Rationals [(139, 1), (0, 1), (0, 100)])])] demo_files)"
proof -
  have b: "piexif_load demo demo_files ''b.jpg'' = Some photo_tagged"
    by (simp add: demo_def demo_files_def)
  have c: "piexif_load demo demo_files ''c.jpg'' = Some photo_latitude_only"
    by (simp add: demo_def demo_files_def)
  from gps_skip_needs_both_coordinates [OF b, of demo_sample True False]
    gps_skip_needs_both_coordinates [OF c, of demo_sample True False]
    has_gps_photo_tagged not_has_gps_photo_latitude_only b c update_photo_latitude_only
  show ?thesis by simp
qed

end
